theory Spec2Isabelle
  imports Main "HOL-Library.Word"
begin

unbundle bit_operations_syntax

section \<open>Errors\<close>

text \<open>
  The error values of the service. The four sentinel errors of
  \<^verbatim>\<open>internal/service/shortlink.go\<close> keep their names.
  \<open>InvalidCharacterError\<close> is the error type of the encoder.
  \<open>ErrInvalidExpireAt e\<close> stands for \<^verbatim>\<open>fmt.Errorf("invalid expire_at format: %w", err)\<close> and
  \<open>ErrSaveFailed e\<close> for \<^verbatim>\<open>fmt.Errorf("failed to save short link: %w", err)\<close>.
  \<open>BackendError msg\<close> is any error a backend (MySQL, Redis, Bloom filter) or a library
  call returns.
\<close>

datatype error =
    ErrInvalidURL
  | ErrShortLinkNotFound
  | ErrShortLinkExpired
  | ErrMaxCapacityReached
  | ErrInvalidExpireAt error
  | ErrSaveFailed error
  | InvalidCharacterError char
  | BackendError string

section \<open>Encoder (internal/encoder/base32.go)\<close>

text \<open>
  Strings are byte lists. \<^verbatim>\<open>uint64\<close> is \<open>64 word\<close>; the lengths are Go \<^verbatim>\<open>int\<close>s.
\<close>

definition Base32Alphabet :: string where
  "Base32Alphabet = ''ABCDEFGHIJKLMNOPQRSTUVWXYZ234567''"

definition MinLength :: int where
  "MinLength = 4"

definition MaxLength :: int where
  "MaxLength = 6"

definition alphabetLen :: "64 word" where
  "alphabetLen = of_nat (length Base32Alphabet)"

text \<open>
  The loop of \<^verbatim>\<open>Encode\<close> fills \<^verbatim>\<open>result[i]\<close> for \<^verbatim>\<open>i = length-1\<close> down to \<^verbatim>\<open>0\<close>:
  the digits are produced least significant first and each one is put in front of the
  digits already written. The first argument counts the positions still to fill.
\<close>

fun encodeLoop :: "nat \<Rightarrow> 64 word \<Rightarrow> string \<Rightarrow> string" where
  "encodeLoop 0 n result = result"
| "encodeLoop (Suc i) n result =
     encodeLoop i (n div alphabetLen) (Base32Alphabet ! unat (n mod alphabetLen) # result)"

definition Encode :: "64 word \<Rightarrow> int \<Rightarrow> string" where
  "Encode n len =
     (let len = (if len < MinLength \<or> len > MaxLength then MinLength else len)
      in encodeLoop (nat len) n [])"

text \<open>
  \<^verbatim>\<open>strings.ToUpper\<close> on the ASCII range; the other bytes are left as they are (the
  model covers ASCII input, which is all that \<^verbatim>\<open>Encode\<close> produces).
\<close>

definition toUpper :: "char \<Rightarrow> char" where
  "toUpper c =
     (if (97::nat) \<le> of_char c \<and> (of_char c :: nat) \<le> 122
      then char_of (of_char c - (32::nat)) else c)"

text \<open>The inner search loop of \<^verbatim>\<open>Decode\<close>: the first index of \<open>c\<close> in the alphabet.\<close>

fun indexFrom :: "char \<Rightarrow> string \<Rightarrow> nat \<Rightarrow> nat option" where
  "indexFrom c [] i = None"
| "indexFrom c (a # as) i = (if c = a then Some i else indexFrom c as (Suc i))"

fun decodeLoop :: "string \<Rightarrow> 64 word \<Rightarrow> error + 64 word" where
  "decodeLoop [] result = Inr result"
| "decodeLoop (c # cs) result =
     (case indexFrom c Base32Alphabet 0 of
        None \<Rightarrow> Inl (InvalidCharacterError c)
      | Some index \<Rightarrow> decodeLoop cs (result * alphabetLen + of_nat index))"

definition Decode :: "string \<Rightarrow> error + 64 word" where
  "Decode s = decodeLoop (map toUpper s) 0"

section \<open>Hash (hashString in internal/service/shortlink.go, pkg/util/hash.go)\<close>

text \<open>
  \<^verbatim>\<open>fnv.New64a\<close>, \<^verbatim>\<open>Write\<close>, \<^verbatim>\<open>Sum64\<close>: 64-bit FNV-1a. The state starts at the
  offset basis; each byte is XORed in and the state multiplied by the FNV prime, in
  \<^verbatim>\<open>uint64\<close> arithmetic.
\<close>

definition hashString :: "string \<Rightarrow> 64 word" where
  "hashString s =
     fold (\<lambda>c h. (h XOR of_nat (of_char c)) * 1099511628211) s 14695981039346656037"

section \<open>Data model (internal/model)\<close>

text \<open>
  A \<^verbatim>\<open>time.Time\<close> is an instant, counted in nanoseconds; \<^verbatim>\<open>t.After(u)\<close> is \<open>u < t\<close>.
  A \<^verbatim>\<open>*time.Time\<close> is an option. \<^verbatim>\<open>int64\<close> identifiers and counters are \<open>int\<close>: the
  code only stores and compares them.
\<close>

type_synonym time = int

definition zeroTime :: time where
  "zeroTime = 0"

record ShortLink =
  ID :: int
  ShortCode :: string
  OriginalURL :: string
  Params :: string
  CreatedAt :: time
  ExpireAt :: "time option"
  Status :: int

definition IsActive :: "ShortLink \<Rightarrow> time \<Rightarrow> bool" where
  "IsActive sl now =
     (if Status sl \<noteq> 1 then False
      else if ExpireAt sl \<noteq> None \<and> the (ExpireAt sl) < now then False
      else True)"

text \<open>
  \<^verbatim>\<open>GenerateRequest\<close>. \<^verbatim>\<open>Params\<close> is a \<^verbatim>\<open>map[string]interface{}\<close>: \<open>None\<close> is the nil
  map, \<open>Some ps\<close> lists the entries in key order (the order in which \<^verbatim>\<open>fmt\<close> prints a
  map), each value as \<^verbatim>\<open>%v\<close> prints it.
\<close>

record GenerateRequest =
  req_URL :: string
  req_Params :: "(string \<times> string) list option"
  req_ExpireAt :: string

record GenerateResponse =
  resp_ShortLink :: string
  resp_ShortCode :: string
  resp_OriginalURL :: string
  resp_ExpireAt :: time

record Stats =
  stats_PV :: int
  stats_UV :: int

record SourceStat =
  Source :: string
  Count :: int

record AnalyticsResponse =
  ar_ShortCode :: string
  ar_PV :: int
  ar_UV :: int
  ar_TopSources :: "SourceStat list"

section \<open>Library functions\<close>

text \<open>
  The service calls \<^verbatim>\<open>net/url\<close>, \<^verbatim>\<open>time\<close> and \<^verbatim>\<open>encoding/json\<close>, which are not
  part of the repository. They are parameters of the model, collected in one record.
  \<open>URL\<close> has the fields of \<^verbatim>\<open>url.URL\<close> that matter here; \<open>Values\<close> is \<^verbatim>\<open>url.Values\<close>, a
  \<^verbatim>\<open>map[string][]string\<close>.
\<close>

record URL =
  Scheme :: string
  Host :: string
  Path :: string
  RawQuery :: string
  Fragment :: string

type_synonym Values = "string \<rightharpoonup> string list"

record GoLib =
  time_Parse :: "string \<Rightarrow> error + time"
  json_Marshal :: "(string \<times> string) list \<Rightarrow> string"
  url_Parse :: "string \<Rightarrow> error + URL"
  url_Query :: "URL \<Rightarrow> Values"
  values_Encode :: "Values \<Rightarrow> string"
  url_String :: "URL \<Rightarrow> string"

text \<open>\<^verbatim>\<open>Values.Set\<close>: \<^verbatim>\<open>v[key] = []string{value}\<close>.\<close>

definition values_Set :: "Values \<Rightarrow> string \<Rightarrow> string \<Rightarrow> Values" where
  "values_Set v key val = v(key \<mapsto> [val])"

section \<open>Backend interfaces (internal/service/interfaces.go)\<close>

text \<open>
  The services reach MySQL, Redis and the Bloom filter through interfaces. An interface
  is a record of functions over a backend state \<open>'s\<close>: a method that writes returns the
  new state, a method that only reads does not. A Go result \<^verbatim>\<open>(v, err)\<close> whose value
  is used whatever the error is a pair \<open>(v, err)\<close> with \<open>err = None\<close> for \<^verbatim>\<open>nil\<close>; a
  result \<^verbatim>\<open>(*ShortLink, error)\<close>, whose pointer is read only when the error is
  \<^verbatim>\<open>nil\<close>, is a sum.

  \<^verbatim>\<open>RedisRepositoryInterface\<close> is split in two records: the key/value methods that
  \<^verbatim>\<open>ShortLinkService\<close> calls and the counter methods that \<^verbatim>\<open>AnalyticsService\<close> calls.
  A \<^verbatim>\<open>map[string]int64\<close> result is the list of its entries in iteration order.
\<close>

record 's MySQLRepositoryInterface =
  mysql_SaveShortLink :: "ShortLink \<Rightarrow> 's \<Rightarrow> error option \<times> 's"
  mysql_GetShortLinkByCode :: "string \<Rightarrow> 's \<Rightarrow> error + ShortLink"
  mysql_GetShortLinkByURL :: "string \<Rightarrow> 's \<Rightarrow> error + ShortLink"
  mysql_CheckExistsByCode :: "string \<Rightarrow> 's \<Rightarrow> bool \<times> error option"

record 's RedisRepositoryInterface =
  redis_SaveShortLink :: "string \<Rightarrow> string \<Rightarrow> int \<Rightarrow> 's \<Rightarrow> error option \<times> 's"
  redis_GetShortLink :: "string \<Rightarrow> 's \<Rightarrow> string \<times> error option"

record 's RedisAnalyticsInterface =
  redis_IncrementPV :: "string \<Rightarrow> 's \<Rightarrow> (int \<times> error option) \<times> 's"
  redis_GetPV :: "string \<Rightarrow> 's \<Rightarrow> int \<times> error option"
  redis_AddUV :: "string \<Rightarrow> string \<Rightarrow> 's \<Rightarrow> (bool \<times> error option) \<times> 's"
  redis_GetUV :: "string \<Rightarrow> 's \<Rightarrow> int \<times> error option"
  redis_AddSource :: "string \<Rightarrow> string \<Rightarrow> 's \<Rightarrow> error option \<times> 's"
  redis_GetSources :: "string \<Rightarrow> 's \<Rightarrow> (string \<times> int) list \<times> error option"

record 's BloomServiceInterface =
  bloom_Add :: "string \<Rightarrow> 's \<Rightarrow> error option \<times> 's"
  bloom_Exists :: "string \<Rightarrow> 's \<Rightarrow> bool \<times> error option"

section \<open>ShortLinkService (internal/service/shortlink.go)\<close>

record 's ShortLinkService =
  mysqlRepo :: "'s MySQLRepositoryInterface"
  redisRepo :: "'s RedisRepositoryInterface"
  bloomSvc :: "'s BloomServiceInterface"
  domain :: string

text \<open>\<^verbatim>\<open>repository.ShortLinkCacheTTL\<close>, 24 hours in nanoseconds.\<close>

definition ShortLinkCacheTTL :: int where
  "ShortLinkCacheTTL = 24 * 3600 * 1000000000"

text \<open>
  The inner loop of \<^verbatim>\<open>generateWithCollision\<close>, from attempt \<open>i\<close> on: \<open>Some\<close> the code
  it returns, \<open>None\<close> when the 1000 attempts of this length are used up.
\<close>

function attemptLoop ::
  "'s ShortLinkService \<Rightarrow> 's \<Rightarrow> 64 word \<Rightarrow> int \<Rightarrow> nat \<Rightarrow> string option" where
  "attemptLoop svc s hash len i =
     (if i < 1000 then
        (let shortCode = Encode (hash + of_nat i) len;
             (exists, err) = bloom_Exists (bloomSvc svc) shortCode s
         in if err \<noteq> None \<or> \<not> exists then
              (let (actualExists, _) = mysql_CheckExistsByCode (mysqlRepo svc) shortCode s
               in if \<not> actualExists then Some shortCode
                  else attemptLoop svc s hash len (i + 1))
            else attemptLoop svc s hash len (i + 1))
      else None)"
  by pat_completeness auto
termination
  by (relation "measure (\<lambda>(svc, s, hash, len, i). 1000 - i)") auto

text \<open>The outer loop, from length \<open>len\<close> on.\<close>

function lengthLoop :: "'s ShortLinkService \<Rightarrow> 's \<Rightarrow> string \<Rightarrow> int \<Rightarrow> error + string" where
  "lengthLoop svc s url len =
     (if len \<le> MaxLength then
        (let hash = hashString url
         in case attemptLoop svc s hash len 0 of
              Some shortCode \<Rightarrow> Inr shortCode
            | None \<Rightarrow> lengthLoop svc s url (len + 1))
      else Inl ErrMaxCapacityReached)"
  by pat_completeness auto
termination
  by (relation "measure (\<lambda>(svc, s, url, len). nat (MaxLength + 1 - len))") auto

declare attemptLoop.simps [simp del] lengthLoop.simps [simp del]

definition generateWithCollision :: "'s ShortLinkService \<Rightarrow> string \<Rightarrow> 's \<Rightarrow> error + string" where
  "generateWithCollision svc url s = lengthLoop svc s url MinLength"

text \<open>\<^verbatim>\<open>fmt.Sprintf("%v", params)\<close> for a map: \<^verbatim>\<open>map[k1:v1 k2:v2]\<close>.\<close>

fun joinWith :: "string \<Rightarrow> string list \<Rightarrow> string" where
  "joinWith sep [] = []"
| "joinWith sep [x] = x"
| "joinWith sep (x # y # ys) = x @ sep @ joinWith sep (y # ys)"

definition fmtMap :: "(string \<times> string) list \<Rightarrow> string" where
  "fmtMap ps = ''map['' @ joinWith '' '' (map (\<lambda>(k, v). k @ '':'' @ v) ps) @ '']''"

definition buildCacheKey :: "string \<Rightarrow> (string \<times> string) list option \<Rightarrow> string" where
  "buildCacheKey url params =
     (case params of
        None \<Rightarrow> url
      | Some ps \<Rightarrow> if length ps = 0 then url else url @ '':'' @ fmtMap ps)"

definition buildResponse :: "'s ShortLinkService \<Rightarrow> ShortLink \<Rightarrow> GenerateResponse" where
  "buildResponse svc sl =
     \<lparr>resp_ShortLink = domain svc @ ''/'' @ ShortCode sl,
      resp_ShortCode = ShortCode sl,
      resp_OriginalURL = OriginalURL sl,
      resp_ExpireAt = (case ExpireAt sl of None \<Rightarrow> zeroTime | Some t \<Rightarrow> t)\<rparr>"

text \<open>
  The cache check at the top of \<^verbatim>\<open>Generate\<close>: \<open>Some\<close> the entry when the cache holds a
  non-empty code under the key and MySQL returns its row.
\<close>

definition cachedShortLink :: "'s ShortLinkService \<Rightarrow> string \<Rightarrow> 's \<Rightarrow> ShortLink option" where
  "cachedShortLink svc cacheKey s =
     (let (cachedCode, err) = redis_GetShortLink (redisRepo svc) cacheKey s
      in if err = None \<and> cachedCode \<noteq> [] then
           (case mysql_GetShortLinkByCode (mysqlRepo svc) cachedCode s of
              Inr sl \<Rightarrow> Some sl
            | Inl _ \<Rightarrow> None)
         else None)"

text \<open>
  \<^verbatim>\<open>Generate\<close>. \<open>now\<close> is the value of \<^verbatim>\<open>time.Now()\<close>. The result is the response or
  the error, with the state of the backends after the call.
\<close>

definition Generate ::
  "'s ShortLinkService \<Rightarrow> GoLib \<Rightarrow> time \<Rightarrow> GenerateRequest \<Rightarrow> 's \<Rightarrow> (error + GenerateResponse) \<times> 's" where
  "Generate svc lib now req s =
     (if req_URL req = [] then (Inl ErrInvalidURL, s)
      else
        case (if req_ExpireAt req \<noteq> []
              then (case time_Parse lib (req_ExpireAt req) of
                      Inl err \<Rightarrow> Inl (ErrInvalidExpireAt err)
                    | Inr t \<Rightarrow> Inr (Some t))
              else Inr None) of
          Inl err \<Rightarrow> (Inl err, s)
        | Inr expireAt \<Rightarrow>
            (let cacheKey = buildCacheKey (req_URL req) (req_Params req)
             in case cachedShortLink svc cacheKey s of
                  Some sl \<Rightarrow> (Inr (buildResponse svc sl), s)
                | None \<Rightarrow>
                    (case mysql_GetShortLinkByURL (mysqlRepo svc) (req_URL req) s of
                       Inr existing \<Rightarrow>
                         (let (_, s1) = redis_SaveShortLink (redisRepo svc) cacheKey
                                          (ShortCode existing) ShortLinkCacheTTL s
                          in (Inr (buildResponse svc existing), s1))
                     | Inl _ \<Rightarrow>
                         (case generateWithCollision svc (req_URL req) s of
                            Inl err \<Rightarrow> (Inl err, s)
                          | Inr shortCode \<Rightarrow>
                              (let paramsJSON = (case req_Params req of
                                                   None \<Rightarrow> []
                                                 | Some ps \<Rightarrow> json_Marshal lib ps);
                                   sl = \<lparr>ID = 0, ShortCode = shortCode,
                                         OriginalURL = req_URL req, Params = paramsJSON,
                                         CreatedAt = now, ExpireAt = expireAt, Status = 1\<rparr>
                               in case mysql_SaveShortLink (mysqlRepo svc) sl s of
                                    (Some err, s1) \<Rightarrow> (Inl (ErrSaveFailed err), s1)
                                  | (None, s1) \<Rightarrow>
                                      (let (_, s2) = redis_SaveShortLink (redisRepo svc) cacheKey
                                                       shortCode ShortLinkCacheTTL s1;
                                           (_, s3) = redis_SaveShortLink (redisRepo svc) shortCode
                                                       (req_URL req) ShortLinkCacheTTL s2;
                                           (_, s4) = bloom_Add (bloomSvc svc) shortCode s3
                                       in (Inr (buildResponse svc sl), s4)))))))"

text \<open>\<^verbatim>\<open>Get\<close>. The entry rebuilt on a cache hit has only its code and URL set.\<close>

definition Get ::
  "'s ShortLinkService \<Rightarrow> time \<Rightarrow> string \<Rightarrow> 's \<Rightarrow> (error + ShortLink) \<times> 's" where
  "Get svc now shortCode s =
     (let (url, err) = redis_GetShortLink (redisRepo svc) shortCode s
      in if err = None \<and> url \<noteq> [] then
           (Inr \<lparr>ID = 0, ShortCode = shortCode, OriginalURL = url, Params = [],
                 CreatedAt = zeroTime, ExpireAt = None, Status = 0\<rparr>, s)
         else
           (case mysql_GetShortLinkByCode (mysqlRepo svc) shortCode s of
              Inl _ \<Rightarrow> (Inl ErrShortLinkNotFound, s)
            | Inr sl \<Rightarrow>
                if \<not> IsActive sl now then (Inl ErrShortLinkExpired, s)
                else
                  (let (_, s1) = redis_SaveShortLink (redisRepo svc) shortCode
                                   (OriginalURL sl) ShortLinkCacheTTL s
                   in (Inr sl, s1))))"

text \<open>
  \<^verbatim>\<open>ExpandURL\<close>. \<open>queryParams\<close> is a \<^verbatim>\<open>map[string]string\<close>, given as the list of its
  entries in the order in which \<^verbatim>\<open>range\<close> visits them.
\<close>

definition ExpandURL ::
  "'s ShortLinkService \<Rightarrow> GoLib \<Rightarrow> time \<Rightarrow> string \<Rightarrow> (string \<times> string) list \<Rightarrow> 's
     \<Rightarrow> (error + string) \<times> 's" where
  "ExpandURL svc lib now shortCode queryParams s =
     (case Get svc now shortCode s of
        (Inl err, s1) \<Rightarrow> (Inl err, s1)
      | (Inr sl, s1) \<Rightarrow>
          (let targetURL = OriginalURL sl
           in case url_Parse lib targetURL of
                Inl _ \<Rightarrow> (Inr targetURL, s1)
              | Inr u \<Rightarrow>
                  (let query = fold (\<lambda>(key, val) q. values_Set q key val) queryParams
                                 (url_Query lib u)
                   in (Inr (url_String lib (u\<lparr>RawQuery := values_Encode lib query\<rparr>)), s1))))"

section \<open>AnalyticsService (internal/service/analytics.go)\<close>

text \<open>\<^verbatim>\<open>strings.HasPrefix\<close>, \<^verbatim>\<open>strings.Contains\<close> and \<^verbatim>\<open>strings.Split\<close> on a one-byte
  separator.\<close>

definition HasPrefix :: "string \<Rightarrow> string \<Rightarrow> bool" where
  "HasPrefix s pre = (take (length pre) s = pre)"

fun Contains :: "string \<Rightarrow> string \<Rightarrow> bool" where
  "Contains [] substr = (substr = [])"
| "Contains (c # cs) substr = (HasPrefix (c # cs) substr \<or> Contains cs substr)"

fun Split :: "string \<Rightarrow> char \<Rightarrow> string list" where
  "Split [] sep = [[]]"
| "Split (c # cs) sep =
     (if c = sep then [] # Split cs sep
      else (case Split cs sep of
              [] \<Rightarrow> [[c]]
            | p # ps \<Rightarrow> (c # p) # ps))"

definition extractSource :: "GoLib \<Rightarrow> string \<Rightarrow> string" where
  "extractSource lib referer =
     (if referer = [] then ''direct''
      else
        case url_Parse lib referer of
          Inl _ \<Rightarrow> ''unknown''
        | Inr u \<Rightarrow>
            (let host = Host u;
                 host = (if HasPrefix host ''www.'' then drop 4 host else host)
             in if Contains host ''google'' then ''google''
                else if Contains host ''baidu'' then ''baidu''
                else if Contains host ''bing'' then ''bing''
                else if Contains host ''weibo'' then ''weibo''
                else if Contains host ''weixin'' \<or> Contains host ''mp.weixin.qq.com'' then ''wechat''
                else if Contains host ''qq'' then ''qq''
                else if Contains host ''zhihu'' then ''zhihu''
                else
                  (let parts = Split host CHR ''.''
                   in if length parts \<ge> 2 then parts ! (length parts - 2) else host)))"

text \<open>
  \<^verbatim>\<open>RecordAccess\<close>. \<open>today\<close> is \<^verbatim>\<open>time.Now().Format("2006-01-02")\<close>. The returned error
  is always \<^verbatim>\<open>nil\<close>.
\<close>

definition RecordAccess ::
  "'s RedisAnalyticsInterface \<Rightarrow> GoLib \<Rightarrow> string \<Rightarrow> string \<Rightarrow> string \<Rightarrow> string \<Rightarrow> string \<Rightarrow> 's
     \<Rightarrow> error option \<times> 's" where
  "RecordAccess repo lib today shortCode clientIP userAgent referer s =
     (let (_, s1) = redis_IncrementPV repo shortCode s;
          visitorID = today @ '':'' @ clientIP;
          (_, s2) = redis_AddUV repo shortCode visitorID s1;
          source = extractSource lib referer
      in if source \<noteq> [] then
           (let (_, s3) = redis_AddSource repo shortCode source s2 in (None, s3))
         else (None, s2))"

definition GetStats :: "'s RedisAnalyticsInterface \<Rightarrow> string \<Rightarrow> 's \<Rightarrow> error + Stats" where
  "GetStats repo shortCode s =
     (let (pv, err) = redis_GetPV repo shortCode s;
          pv = (if err \<noteq> None then 0 else pv);
          (uv, err) = redis_GetUV repo shortCode s;
          uv = (if err \<noteq> None then 0 else uv)
      in Inr \<lparr>stats_PV = pv, stats_UV = uv\<rparr>)"

text \<open>
  The two sorting loops of \<^verbatim>\<open>getTopSources\<close>: for each \<open>i\<close>, every later \<open>j\<close> whose
  count is greater is swapped into position \<open>i\<close>.
\<close>

function sortInner :: "SourceStat list \<Rightarrow> nat \<Rightarrow> nat \<Rightarrow> SourceStat list" where
  "sortInner stats i j =
     (if j < length stats then
        sortInner
          (if Count (stats ! j) > Count (stats ! i)
           then stats[i := stats ! j, j := stats ! i] else stats)
          i (j + 1)
      else stats)"
  by pat_completeness auto
termination
  by (relation "measure (\<lambda>(stats, i, j). length stats - j)") auto

declare sortInner.simps [simp del]

function sortOuter :: "SourceStat list \<Rightarrow> nat \<Rightarrow> SourceStat list" where
  "sortOuter stats i =
     (if i < length stats then sortOuter (sortInner stats i (i + 1)) (i + 1) else stats)"
  by pat_completeness auto
termination
proof (relation "measure (\<lambda>(stats, i). length stats - i)")
  show "wf (measure (\<lambda>(stats, i). length stats - i))"
    by simp
next
  fix stats :: "SourceStat list" and i :: nat
  assume less: "i < length stats"
  have len: "length (sortInner xs a b) = length xs" for xs a b
  proof (induction xs a b rule: sortInner.induct)
    case (1 xs a b)
    then show ?case
      using sortInner.simps [of xs a b] by (simp split: if_splits)
  qed
  show "((sortInner stats i (i + 1), i + 1), stats, i) \<in> measure (\<lambda>(stats, i). length stats - i)"
    using less by (simp add: len)
qed

declare sortOuter.simps [simp del]

definition getTopSources :: "(string \<times> int) list \<Rightarrow> nat \<Rightarrow> SourceStat list" where
  "getTopSources sources limit =
     (if length sources = 0 then []
      else
        (let stats = map (\<lambda>(source, count). \<lparr>Source = source, Count = count\<rparr>) sources;
             stats = sortOuter stats 0
         in if length stats > limit then take limit stats else stats))"

definition GetAnalytics ::
  "'s RedisAnalyticsInterface \<Rightarrow> string \<Rightarrow> 's \<Rightarrow> error + AnalyticsResponse" where
  "GetAnalytics repo shortCode s =
     (case GetStats repo shortCode s of
        Inl err \<Rightarrow> Inl err
      | Inr stats \<Rightarrow>
          (let (sources, err) = redis_GetSources repo shortCode s;
               sources = (if err \<noteq> None then [] else sources);
               topSources = getTopSources sources 10
           in Inr \<lparr>ar_ShortCode = shortCode, ar_PV = stats_PV stats, ar_UV = stats_UV stats,
                   ar_TopSources = topSources\<rparr>))"

section \<open>The repositories (internal/repository/mysql.go, redis.go)\<close>

text \<open>
  The backends when every call succeeds. The table \<^verbatim>\<open>short_links\<close> is the list of its
  rows in \<^verbatim>\<open>id\<close> order; \<^verbatim>\<open>short_code\<close> has a unique index, so \<^verbatim>\<open>Create\<close> fails on a
  code that is already there. Redis is a map from keys to values (expiry is not
  modelled). The state of the Bloom filter is a component \<open>index\<close> of any type.
\<close>

record 'b Store =
  rows :: "ShortLink list"
  kv :: "string \<rightharpoonup> string"
  index :: 'b

definition nextID :: "ShortLink list \<Rightarrow> int" where
  "nextID rs = fold max (map ID rs) 0 + 1"

definition SaveShortLink_mysql :: "ShortLink \<Rightarrow> 'b Store \<Rightarrow> error option \<times> 'b Store" where
  "SaveShortLink_mysql sl st =
     (if \<exists>r \<in> set (rows st). ShortCode r = ShortCode sl
      then (Some (BackendError ''Duplicate entry''), st)
      else (None, st\<lparr>rows := rows st @ [sl\<lparr>ID := nextID (rows st)\<rparr>]\<rparr>))"

definition GetShortLinkByCode :: "string \<Rightarrow> 'b Store \<Rightarrow> error + ShortLink" where
  "GetShortLinkByCode shortCode st =
     (case find (\<lambda>r. ShortCode r = shortCode \<and> Status r = 1) (rows st) of
        None \<Rightarrow> Inl (BackendError ''record not found'')
      | Some sl \<Rightarrow> Inr sl)"

definition GetShortLinkByURL :: "string \<Rightarrow> 'b Store \<Rightarrow> error + ShortLink" where
  "GetShortLinkByURL url st =
     (case find (\<lambda>r. OriginalURL r = url \<and> Status r = 1) (rows st) of
        None \<Rightarrow> Inl (BackendError ''record not found'')
      | Some sl \<Rightarrow> Inr sl)"

definition CheckExistsByCode :: "string \<Rightarrow> 'b Store \<Rightarrow> bool \<times> error option" where
  "CheckExistsByCode shortCode st =
     (let count = length (filter (\<lambda>r. ShortCode r = shortCode) (rows st))
      in (count > 0, None))"

definition shortLinkKey :: "string \<Rightarrow> string" where
  "shortLinkKey shortCode = ''sl:'' @ shortCode"

definition SaveShortLink_redis :: "string \<Rightarrow> string \<Rightarrow> int \<Rightarrow> 'b Store \<Rightarrow> error option \<times> 'b Store" where
  "SaveShortLink_redis shortCode originalURL ttl st =
     (None, st\<lparr>kv := (kv st)(shortLinkKey shortCode \<mapsto> originalURL)\<rparr>)"

definition GetShortLink_redis :: "string \<Rightarrow> 'b Store \<Rightarrow> string \<times> error option" where
  "GetShortLink_redis shortCode st =
     (case kv st (shortLinkKey shortCode) of
        None \<Rightarrow> ([], Some (BackendError ''redis: nil''))
      | Some v \<Rightarrow> (v, None))"

text \<open>
  The production service: the two repositories above and a Bloom filter service given by
  its two methods on the \<open>index\<close> component.
\<close>

definition NewShortLinkService ::
  "(string \<Rightarrow> 'b \<Rightarrow> error option \<times> 'b) \<Rightarrow> (string \<Rightarrow> 'b \<Rightarrow> bool \<times> error option) \<Rightarrow> string
     \<Rightarrow> ('b Store) ShortLinkService" where
  "NewShortLinkService bloomAdd bloomExists domainName =
     \<lparr>mysqlRepo =
        \<lparr>mysql_SaveShortLink = SaveShortLink_mysql,
         mysql_GetShortLinkByCode = GetShortLinkByCode,
         mysql_GetShortLinkByURL = GetShortLinkByURL,
         mysql_CheckExistsByCode = CheckExistsByCode\<rparr>,
      redisRepo =
        \<lparr>redis_SaveShortLink = SaveShortLink_redis,
         redis_GetShortLink = GetShortLink_redis\<rparr>,
      bloomSvc =
        \<lparr>bloom_Add = (\<lambda>c st. case bloomAdd c (index st) of (err, b) \<Rightarrow> (err, st\<lparr>index := b\<rparr>)),
         bloom_Exists = (\<lambda>c st. bloomExists c (index st))\<rparr>,
      domain = domainName\<rparr>"

section \<open>Test doubles\<close>

text \<open>
  Backends with fixed answers and no state, as the mocks of the test suite: the Bloom
  filter and \<^verbatim>\<open>CheckExistsByCode\<close> answer as the two arguments say, the cache and the
  lookups by code and URL miss, every write succeeds.
\<close>

definition mockService ::
  "(string \<Rightarrow> bool \<times> error option) \<Rightarrow> (string \<Rightarrow> bool \<times> error option) \<Rightarrow> unit ShortLinkService" where
  "mockService bloomAnswer storeAnswer =
     \<lparr>mysqlRepo =
        \<lparr>mysql_SaveShortLink = (\<lambda>sl s. (None, s)),
         mysql_GetShortLinkByCode = (\<lambda>c s. Inl (BackendError ''not found'')),
         mysql_GetShortLinkByURL = (\<lambda>u s. Inl (BackendError ''not found'')),
         mysql_CheckExistsByCode = (\<lambda>c s. storeAnswer c)\<rparr>,
      redisRepo =
        \<lparr>redis_SaveShortLink = (\<lambda>k v ttl s. (None, s)),
         redis_GetShortLink = (\<lambda>k s. ([], Some (BackendError ''not found'')))\<rparr>,
      bloomSvc =
        \<lparr>bloom_Add = (\<lambda>c s. (None, s)),
         bloom_Exists = (\<lambda>c s. bloomAnswer c)\<rparr>,
      domain = ''https://s.example.com''\<rparr>"

section \<open>Notions used in the statements\<close>

text \<open>
  The candidate codes of \<^verbatim>\<open>generateWithCollision\<close> in the order in which the loops
  derive them: lengths 4, 5, 6, and for each length the offsets 0 to 999.
\<close>

definition candidates :: "string \<Rightarrow> string list" where
  "candidates url =
     concat (map (\<lambda>len. map (\<lambda>i. Encode (hashString url + of_nat i) len) [0..<1000])
       [4, 5, 6])"

text \<open>
  What the Approximate Membership Index answers on a code: an error, "possibly exists"
  (\<^verbatim>\<open>true\<close>, no error) or "definitely absent" (\<^verbatim>\<open>false\<close>, no error); and what the
  flag of the Durable Store's existence check says.
\<close>

definition indexErrors :: "'s ShortLinkService \<Rightarrow> 's \<Rightarrow> string \<Rightarrow> bool" where
  "indexErrors svc s c = (snd (bloom_Exists (bloomSvc svc) c s) \<noteq> None)"

definition indexPossiblyExists :: "'s ShortLinkService \<Rightarrow> 's \<Rightarrow> string \<Rightarrow> bool" where
  "indexPossiblyExists svc s c = (bloom_Exists (bloomSvc svc) c s = (True, None))"

definition indexDefinitelyAbsent :: "'s ShortLinkService \<Rightarrow> 's \<Rightarrow> string \<Rightarrow> bool" where
  "indexDefinitelyAbsent svc s c = (bloom_Exists (bloomSvc svc) c s = (False, None))"

definition storeReportsUsed :: "'s ShortLinkService \<Rightarrow> 's \<Rightarrow> string \<Rightarrow> bool" where
  "storeReportsUsed svc s c = fst (mysql_CheckExistsByCode (mysqlRepo svc) c s)"

text \<open>
  A candidate passes when the Index errors or reports it definitely absent, and the
  Durable Store's flag says it is unused.
\<close>

definition accepted :: "'s ShortLinkService \<Rightarrow> 's \<Rightarrow> string \<Rightarrow> bool" where
  "accepted svc s c =
     ((indexErrors svc s c \<or> indexDefinitelyAbsent svc s c) \<and> \<not> storeReportsUsed svc s c)"

text \<open>The service whose existence check returns the same flags and never an error.\<close>

definition withoutCheckErrors :: "'s ShortLinkService \<Rightarrow> 's ShortLinkService" where
  "withoutCheckErrors svc =
     svc\<lparr>mysqlRepo := (mysqlRepo svc)\<lparr>mysql_CheckExistsByCode :=
       (\<lambda>c s. (fst (mysql_CheckExistsByCode (mysqlRepo svc) c s), None))\<rparr>\<rparr>"

text \<open>
  \<^verbatim>\<open>Generate\<close> gets as far as the collision loop: the URL is not empty, the expiry is
  absent or parses, the cache check finds no entry and MySQL has no entry for the URL.
\<close>

definition reachesCollisionLoop :: "'s ShortLinkService \<Rightarrow> GoLib \<Rightarrow> GenerateRequest \<Rightarrow> 's \<Rightarrow> bool" where
  "reachesCollisionLoop svc lib req s =
     (req_URL req \<noteq> []
      \<and> (req_ExpireAt req = [] \<or> \<not> isl (time_Parse lib (req_ExpireAt req)))
      \<and> cachedShortLink svc (buildCacheKey (req_URL req) (req_Params req)) s = None
      \<and> isl (mysql_GetShortLinkByURL (mysqlRepo svc) (req_URL req) s))"

text \<open>
  Merging supplied query parameters into a query, last writer wins: a supplied key maps to
  its supplied value alone, every other key keeps its values.
\<close>

definition mergedQuery :: "Values \<Rightarrow> (string \<times> string) list \<Rightarrow> Values" where
  "mergedQuery q params =
     (\<lambda>key. case map_of params key of Some val \<Rightarrow> Some [val] | None \<Rightarrow> q key)"

text \<open>
  The source of a host in the words of the specification: the label of the first keyword
  of the fixed list that occurs in the host; with no such keyword, the second-to-last
  dot-separated label; for a host of one label, the host itself.
\<close>

definition knownSources :: "(string \<times> string) list" where
  "knownSources =
     [(''google'', ''google''), (''baidu'', ''baidu''), (''bing'', ''bing''),
      (''weibo'', ''weibo''), (''weixin'', ''wechat''), (''mp.weixin.qq.com'', ''wechat''),
      (''qq'', ''qq''), (''zhihu'', ''zhihu'')]"

definition stripWWW :: "string \<Rightarrow> string" where
  "stripWWW host = (if HasPrefix host ''www.'' then drop 4 host else host)"

definition sourceOfHost :: "string \<Rightarrow> string" where
  "sourceOfHost host =
     (case find (\<lambda>(keyword, label). Contains host keyword) knownSources of
        Some (keyword, label) \<Rightarrow> label
      | None \<Rightarrow>
          (let parts = Split host CHR ''.''
           in if length parts \<ge> 2 then parts ! (length parts - 2) else host))"

section \<open>Test doubles for the counters and the library\<close>

text \<open>
  A mock of the counter methods, as in the test suite: the three reads return the given
  results, the three writes succeed, and the state is the list of the writes made.
\<close>

definition mockAnalytics ::
  "int \<times> error option \<Rightarrow> int \<times> error option \<Rightarrow> (string \<times> int) list \<times> error option
     \<Rightarrow> (string list) RedisAnalyticsInterface" where
  "mockAnalytics pv uv sources =
     \<lparr>redis_IncrementPV = (\<lambda>c s. ((1, None), s @ [''IncrementPV '' @ c])),
      redis_GetPV = (\<lambda>c s. pv),
      redis_AddUV = (\<lambda>c v s. ((True, None), s @ [''AddUV '' @ c @ '' '' @ v])),
      redis_GetUV = (\<lambda>c s. uv),
      redis_AddSource = (\<lambda>c src s. (None, s @ [''AddSource '' @ c @ '' '' @ src])),
      redis_GetSources = (\<lambda>c s. sources)\<rparr>"

text \<open>
  A stand-in for \<^verbatim>\<open>net/url\<close> on simple inputs, used to apply the theorems to concrete
  URLs: a URL is \<^verbatim>\<open>https://host/path?query\<close> or a path with a query, a string that
  starts with a colon does not parse, a query is a list of \<^verbatim>\<open>key=value\<close> pairs joined
  by \<^verbatim>\<open>&\<close>, and \<^verbatim>\<open>Encode\<close> writes the keys \<^verbatim>\<open>a\<close> and \<^verbatim>\<open>b\<close> in this order.
\<close>

definition exampleParse :: "string \<Rightarrow> error + URL" where
  "exampleParse raw =
     (if HasPrefix raw '':'' then Inl (BackendError ''missing protocol scheme'')
      else
        (let hasScheme = HasPrefix raw ''https://'';
             rest = (if hasScheme then drop 8 raw else raw);
             host = (if hasScheme
                     then takeWhile (\<lambda>c. c \<noteq> CHR ''/'' \<and> c \<noteq> CHR ''?'') rest else []);
             tail = drop (length host) rest
         in Inr \<lparr>Scheme = (if hasScheme then ''https'' else []),
                 Host = host,
                 Path = takeWhile (\<lambda>c. c \<noteq> CHR ''?'') tail,
                 RawQuery = drop 1 (dropWhile (\<lambda>c. c \<noteq> CHR ''?'') tail),
                 Fragment = []\<rparr>))"

definition exampleQuery :: "URL \<Rightarrow> Values" where
  "exampleQuery u =
     (if RawQuery u = [] then Map.empty
      else fold (\<lambda>pair q.
                   (let key = takeWhile (\<lambda>c. c \<noteq> CHR ''='') pair;
                        val = drop 1 (dropWhile (\<lambda>c. c \<noteq> CHR ''='') pair)
                    in q(key \<mapsto> (case q key of None \<Rightarrow> [] | Some vs \<Rightarrow> vs) @ [val])))
             (Split (RawQuery u) CHR ''&'') Map.empty)"

definition exampleEncode :: "Values \<Rightarrow> string" where
  "exampleEncode q =
     joinWith ''&''
       (concat (map (\<lambda>key. case q key of
                              None \<Rightarrow> []
                            | Some vs \<Rightarrow> map (\<lambda>val. key @ ''='' @ val) vs)
                  [''a'', ''b'']))"

definition exampleString :: "URL \<Rightarrow> string" where
  "exampleString u =
     (if Scheme u = [] then [] else Scheme u @ ''://'') @ Host u @ Path u
       @ (if RawQuery u = [] then [] else ''?'' @ RawQuery u)"

definition exampleLib :: GoLib where
  "exampleLib =
     \<lparr>time_Parse = (\<lambda>t. Inl (BackendError ''parsing time'')),
      json_Marshal = fmtMap,
      url_Parse = exampleParse,
      url_Query = exampleQuery,
      values_Encode = exampleEncode,
      url_String = exampleString\<rparr>"

section \<open>Properties of the encoder\<close>

lemma alphabetLen_32: "alphabetLen = 32"
  by (simp add: alphabetLen_def Base32Alphabet_def)

lemma indexFrom_nth:
  "distinct xs \<Longrightarrow> d < length xs \<Longrightarrow> indexFrom (xs ! d) xs i = Some (i + d)"
proof (induction xs arbitrary: d i)
  case Nil
  then show ?case by simp
next
  case (Cons a xs)
  show ?case
  proof (cases d)
    case 0
    then show ?thesis by simp
  next
    case (Suc k)
    with Cons.prems have "xs ! k \<noteq> a" and "k < length xs" and "distinct xs"
      by auto
    with Cons.IH [of k "Suc i"] Suc show ?thesis by simp
  qed
qed

lemma index_digit: "d < 32 \<Longrightarrow> indexFrom (Base32Alphabet ! d) Base32Alphabet 0 = Some d"
  using indexFrom_nth [of Base32Alphabet d 0] by (simp add: Base32Alphabet_def)

lemma toUpper_alphabet: "c \<in> set Base32Alphabet \<Longrightarrow> toUpper c = c"
  by (auto simp add: Base32Alphabet_def toUpper_def)

lemma digit_in_alphabet: "Base32Alphabet ! unat (n mod alphabetLen) \<in> set Base32Alphabet"
proof -
  have "unat (n mod 32 :: 64 word) < 32"
    by (simp add: unat_mod_distrib)
  then have "unat (n mod alphabetLen) < length Base32Alphabet"
    by (simp add: alphabetLen_32 Base32Alphabet_def)
  then show ?thesis
    by (rule nth_mem)
qed

lemma encodeLoop_chars:
  "set result \<subseteq> set Base32Alphabet \<Longrightarrow> set (encodeLoop k n result) \<subseteq> set Base32Alphabet"
  by (induction k arbitrary: n result) (simp_all add: digit_in_alphabet)

lemma encodeLoop_length: "length (encodeLoop k n result) = k + length result"
  by (induction k arbitrary: n result) simp_all

lemma take_bit_step:
  "take_bit (5 * Suc k) (n :: 64 word) = push_bit 5 (take_bit (5 * k) (drop_bit 5 n)) + take_bit 5 n"
proof -
  have "take_bit (5 * Suc k) n
      = push_bit 5 (drop_bit 5 (take_bit (5 * Suc k) n)) + take_bit 5 (take_bit (5 * Suc k) n)"
    by (simp only: bits_ident)
  also have "drop_bit 5 (take_bit (5 * Suc k) n) = take_bit (5 * k) (drop_bit 5 n)"
    by (simp add: drop_bit_take_bit)
  also have "take_bit 5 (take_bit (5 * Suc k) n) = take_bit 5 n"
    by simp
  finally show ?thesis .
qed

lemma decode_encodeLoop:
  "decodeLoop (encodeLoop k n result) r
     = decodeLoop result (push_bit (5 * k) r + take_bit (5 * k) n)"
proof (induction k arbitrary: n result r)
  case 0
  then show ?case by simp
next
  case (Suc k)
  have d: "unat (n mod 32) < 32"
    by (simp add: unat_mod_distrib)
  have "decodeLoop (encodeLoop (Suc k) n result) r
      = decodeLoop (Base32Alphabet ! unat (n mod 32) # result)
          (push_bit (5 * k) r + take_bit (5 * k) (n div 32))"
    by (simp add: Suc.IH alphabetLen_32)
  also have "\<dots> = decodeLoop result
        ((push_bit (5 * k) r + take_bit (5 * k) (n div 32)) * 32 + n mod 32)"
    using index_digit [OF d] by (simp add: alphabetLen_32)
  also have "(push_bit (5 * k) r + take_bit (5 * k) (n div 32)) * 32 + n mod 32
      = push_bit (5 * Suc k) r + take_bit (5 * Suc k) n"
  proof -
    have a: "n div 32 = drop_bit 5 n" by (simp add: drop_bit_eq_div)
    have b: "n mod 32 = take_bit 5 n" by (simp add: take_bit_eq_mod)
    have c: "push_bit (5 * Suc k) r = push_bit 5 (push_bit (5 * k) r)"
      by (simp add: push_bit_add [symmetric] del: push_bit_add)
    show ?thesis
      unfolding a b c take_bit_step
      by (simp add: push_bit_eq_mult algebra_simps)
  qed
  finally show ?case .
qed

lemma word_mod_mod: "0 < k \<Longrightarrow> (n::64 word) mod k mod k = n mod k"
  by (simp add: mod_word_less word_mod_less_divisor)

lemma Decode_Encode_any:
  "4 \<le> L \<Longrightarrow> L \<le> 6 \<Longrightarrow> Decode (Encode n L) = Inr (take_bit (5 * nat L) n)"
proof -
  assume L: "4 \<le> L" "L \<le> 6"
  have "map toUpper (encodeLoop (nat L) n []) = encodeLoop (nat L) n []"
    using encodeLoop_chars [of "[]" "nat L" n] toUpper_alphabet
    by (intro map_idI) auto
  with L show ?thesis
    by (simp add: Decode_def Encode_def MinLength_def MaxLength_def decode_encodeLoop)
qed

text \<open>
  Claim C5. Encoder round-trip: for every length \<open>L\<close> in \<open>{4, 5, 6}\<close> and every 64-bit
  unsigned integer \<open>n\<close>, decoding the encoding of \<open>n mod 32^L\<close> at length \<open>L\<close> succeeds
  and returns \<open>n mod 32^L\<close>.
\<close>

theorem roundtrip:
  "L \<in> {4, 5, 6} \<Longrightarrow> Decode (Encode (n mod 32 ^ nat L) L) = Inr (n mod 32 ^ nat L)"
proof -
  assume "L \<in> {4, 5, 6}"
  then consider "L = 4" | "L = 5" | "L = 6" by auto
  then show ?thesis
  proof cases
    case 1
    have "(32::64 word) ^ 4 = 2 ^ 20" by simp
    then show ?thesis using 1 Decode_Encode_any [of 4 "n mod 32 ^ 4"]
      by (simp add: take_bit_eq_mod word_mod_mod)
  next
    case 2
    have "(32::64 word) ^ 5 = 2 ^ 25" by simp
    then show ?thesis using 2 Decode_Encode_any [of 5 "n mod 32 ^ 5"]
      by (simp add: take_bit_eq_mod word_mod_mod)
  next
    case 3
    have "(32::64 word) ^ 6 = 2 ^ 30" by simp
    then show ?thesis using 3 Decode_Encode_any [of 6 "n mod 32 ^ 6"]
      by (simp add: take_bit_eq_mod word_mod_mod)
  qed
qed

theorem roundtrip_witness:
  "(5::int) \<in> {4, 5, 6} \<and>
   Decode (Encode (123456789 mod 32 ^ nat 5) 5) = Inr (123456789 mod 32 ^ nat 5)"
  using roundtrip [of 5 123456789] by simp

section \<open>The collision loop\<close>

text \<open>The list of the 1000 offsets stays folded.\<close>

declare upt_rec_numeral [simp del]

lemma attemptLoop_find:
  "attemptLoop svc s hash len i
     = find (accepted svc s) (map (\<lambda>i. Encode (hash + of_nat i) len) [i..<1000])"
proof (induction svc s hash len i rule: attemptLoop.induct)
  case (1 svc s hash len i)
  note eq = attemptLoop.simps [of svc s hash len i]
  show ?case
  proof (cases "i < 1000")
    case False
    then show ?thesis using eq by simp
  next
    case True
    obtain ex err where b: "bloom_Exists (bloomSvc svc) (Encode (hash + of_nat i) len) s = (ex, err)"
      by (cases "bloom_Exists (bloomSvc svc) (Encode (hash + of_nat i) len) s")
    obtain ae e2 where m: "mysql_CheckExistsByCode (mysqlRepo svc) (Encode (hash + of_nat i) len) s = (ae, e2)"
      by (cases "mysql_CheckExistsByCode (mysqlRepo svc) (Encode (hash + of_nat i) len) s")
    have u: "[i..<1000] = i # [i + 1..<1000]"
      using True by (simp add: upt_conv_Cons)
    have a: "accepted svc s (Encode (hash + of_nat i) len) = ((err \<noteq> None \<or> \<not> ex) \<and> \<not> ae)"
      using b m
      by (auto simp add: accepted_def indexErrors_def indexDefinitelyAbsent_def storeReportsUsed_def)
    show ?thesis
    proof (cases "err \<noteq> None \<or> \<not> ex")
      case c1: True
      show ?thesis
      proof (cases ae)
        case False
        then show ?thesis using eq True b m c1 a by (simp add: u)
      next
        case ae: True
        have "attemptLoop svc s hash len i = attemptLoop svc s hash len (i + 1)"
          using eq True b m c1 ae by simp
        also have "\<dots> = find (accepted svc s) (map (\<lambda>i. Encode (hash + of_nat i) len) [i + 1..<1000])"
          using "1.IH"(1) [OF True refl b [symmetric] refl c1 m [symmetric] refl] ae by simp
        finally show ?thesis using a ae by (simp add: u)
      qed
    next
      case c2: False
      have "attemptLoop svc s hash len i = attemptLoop svc s hash len (i + 1)"
        using eq True b c2 by simp
      also have "\<dots> = find (accepted svc s) (map (\<lambda>i. Encode (hash + of_nat i) len) [i + 1..<1000])"
        using "1.IH"(2) [OF True refl b [symmetric] refl c2] by simp
      finally show ?thesis using a c2 by (simp add: u)
    qed
  qed
qed

lemma find_append_case:
  "find P (xs @ ys) = (case find P xs of Some x \<Rightarrow> Some x | None \<Rightarrow> find P ys)"
  by (induction xs) simp_all

lemma lengthLoop_unfold:
  "lengthLoop svc s url len =
     (if len \<le> 6 then
        (case find (accepted svc s) (map (\<lambda>i. Encode (hashString url + of_nat i) len) [0..<1000]) of
           Some c \<Rightarrow> Inr c
         | None \<Rightarrow> lengthLoop svc s url (len + 1))
      else Inl ErrMaxCapacityReached)"
  using lengthLoop.simps [of svc s url len]
  by (simp only: attemptLoop_find MaxLength_def Let_def)

lemma generateWithCollision_find:
  "generateWithCollision svc url s =
     (case find (accepted svc s) (candidates url) of
        Some c \<Rightarrow> Inr c
      | None \<Rightarrow> Inl ErrMaxCapacityReached)"
proof -
  have 7: "lengthLoop svc s url 7 = Inl ErrMaxCapacityReached"
    by (subst lengthLoop_unfold) simp
  have 6: "lengthLoop svc s url 6 =
     (case find (accepted svc s) (map (\<lambda>i. Encode (hashString url + of_nat i) 6) [0..<1000]) of
           Some c \<Rightarrow> Inr c | None \<Rightarrow> Inl ErrMaxCapacityReached)"
    by (subst lengthLoop_unfold) (simp add: 7 split: option.split)
  have 5: "lengthLoop svc s url 5 =
     (case find (accepted svc s) (map (\<lambda>i. Encode (hashString url + of_nat i) 5) [0..<1000]) of
           Some c \<Rightarrow> Inr c | None \<Rightarrow> lengthLoop svc s url 6)"
    by (subst lengthLoop_unfold) (simp split: option.split)
  have 4: "lengthLoop svc s url 4 =
     (case find (accepted svc s) (map (\<lambda>i. Encode (hashString url + of_nat i) 4) [0..<1000]) of
           Some c \<Rightarrow> Inr c | None \<Rightarrow> lengthLoop svc s url 5)"
    by (subst lengthLoop_unfold) (simp split: option.split)
  show ?thesis
    unfolding generateWithCollision_def MinLength_def candidates_def
    by (simp add: 4 5 6 find_append_case split: option.split)
qed

lemma all_candidates:
  "(\<forall>c \<in> set (candidates url). P c)
     = (\<forall>len \<in> {4, 5, 6}. \<forall>i < 1000. P (Encode (hashString url + of_nat i) len))"
  by (auto simp add: candidates_def)

lemma not_accepted_iff:
  "(\<not> accepted svc s c) = (indexPossiblyExists svc s c \<or> storeReportsUsed svc s c)"
proof -
  obtain ex err where b: "bloom_Exists (bloomSvc svc) c s = (ex, err)"
    by (cases "bloom_Exists (bloomSvc svc) c s")
  show ?thesis
    by (auto simp add: accepted_def indexErrors_def indexDefinitelyAbsent_def
        indexPossiblyExists_def b)
qed

lemma accepted_withoutCheckErrors:
  "accepted (withoutCheckErrors svc) s = accepted svc s"
  by (rule ext)
     (simp add: accepted_def withoutCheckErrors_def indexErrors_def indexDefinitelyAbsent_def
        storeReportsUsed_def)

lemma first_candidates:
  "Encode (hashString ''https://a.com'') 4 = ''CG62''"
  "Encode (hashString ''https://a.com'' + 1) 4 = ''CG63''"
  by code_simp+

lemma candidates_Cons:
  "\<exists>rest. candidates url = Encode (hashString url) 4 # Encode (hashString url + 1) 4 # rest"
proof -
  have "[0..<1000] = 0 # [Suc 0..<1000]"
    by (rule upt_conv_Cons) simp
  moreover have "[Suc 0..<1000] = Suc 0 # [Suc (Suc 0)..<1000]"
    by (rule upt_conv_Cons) simp
  ultimately have "[0..<1000] = 0 # Suc 0 # [Suc (Suc 0)..<1000]"
    by simp
  then show ?thesis
    by (simp add: candidates_def)
qed

lemma find_first_two:
  assumes "\<exists>rest. xs = a # b # rest"
  shows "find P xs = (if P a then Some a else if P b then Some b else find P (drop 2 xs))"
  using assms by auto

text \<open>
  Claim C1, as stated, fails on the code. The first candidate for
  \<^verbatim>\<open>https://a.com\<close> is \<^verbatim>\<open>CG62\<close>. With an Index that reports every code definitely
  absent and a Durable Store that reports \<^verbatim>\<open>CG62\<close> used, \<^verbatim>\<open>CG62\<close> is not accepted: the
  Durable Store is asked all the same and the next candidate \<^verbatim>\<open>CG63\<close> is returned. With
  an Index that reports \<^verbatim>\<open>CG62\<close> as possibly existing and a Durable Store that reports
  every code unused, \<^verbatim>\<open>CG62\<close> is not accepted either: the Durable Store's answer is not
  taken into account.
\<close>

theorem generateWithCollision_index_counterexample:
  "Encode (hashString ''https://a.com'') 4 = ''CG62''
   \<and> indexDefinitelyAbsent (mockService (\<lambda>c. (False, None)) (\<lambda>c. (c = ''CG62'', None))) () ''CG62''
   \<and> generateWithCollision (mockService (\<lambda>c. (False, None)) (\<lambda>c. (c = ''CG62'', None)))
        ''https://a.com'' () = Inr ''CG63''
   \<and> indexPossiblyExists (mockService (\<lambda>c. (c = ''CG62'', None)) (\<lambda>c. (False, None))) () ''CG62''
   \<and> \<not> storeReportsUsed (mockService (\<lambda>c. (c = ''CG62'', None)) (\<lambda>c. (False, None))) () ''CG62''
   \<and> generateWithCollision (mockService (\<lambda>c. (c = ''CG62'', None)) (\<lambda>c. (False, None)))
        ''https://a.com'' () = Inr ''CG63''"
  by (simp add: generateWithCollision_find find_first_two [OF candidates_Cons]
      first_candidates accepted_def indexErrors_def indexDefinitelyAbsent_def
      indexPossiblyExists_def storeReportsUsed_def mockService_def)

text \<open>
  Claim C1, amended. In the collision loop the answer of the Approximate Membership Index
  decides first. If the Index errors or reports the candidate definitely absent, the
  candidate is accepted exactly when the flag of the Durable Store's existence check says
  it is unused; a candidate that the Index reports as possibly existing is passed over
  whatever the Durable Store holds. The loop returns the first candidate, in the order of
  the lengths 4 to 6 and the offsets 0 to 999, that is accepted in this sense, and
  "capacity exhausted" when there is none.
\<close>

theorem generateWithCollision_index_then_store:
  "generateWithCollision svc url s =
     (case find (accepted svc s) (candidates url) of
        Some c \<Rightarrow> Inr c
      | None \<Rightarrow> Inl ErrMaxCapacityReached)
   \<and> (indexPossiblyExists svc s c \<longrightarrow> \<not> accepted svc s c)
   \<and> (indexErrors svc s c \<or> indexDefinitelyAbsent svc s c
        \<longrightarrow> accepted svc s c = (\<not> storeReportsUsed svc s c))"
  by (simp add: generateWithCollision_find accepted_def indexPossiblyExists_def
      indexErrors_def indexDefinitelyAbsent_def)

theorem generateWithCollision_index_then_store_witness:
  "generateWithCollision (mockService (\<lambda>c. (c = ''CG62'', None)) (\<lambda>c. (False, None)))
      ''https://a.com'' () = Inr ''CG63''
   \<and> indexPossiblyExists (mockService (\<lambda>c. (c = ''CG62'', None)) (\<lambda>c. (False, None))) () ''CG62''
   \<and> \<not> accepted (mockService (\<lambda>c. (c = ''CG62'', None)) (\<lambda>c. (False, None))) () ''CG62''
   \<and> indexDefinitelyAbsent (mockService (\<lambda>c. (c = ''CG62'', None)) (\<lambda>c. (False, None))) () ''CG63''
   \<and> accepted (mockService (\<lambda>c. (c = ''CG62'', None)) (\<lambda>c. (False, None))) () ''CG63''"
  using generateWithCollision_index_then_store
    [of "mockService (\<lambda>c. (c = ''CG62'', None)) (\<lambda>c. (False, None))" "''https://a.com''" "()" "''CG62''"]
    generateWithCollision_index_then_store
    [of "mockService (\<lambda>c. (c = ''CG62'', None)) (\<lambda>c. (False, None))" "''https://a.com''" "()" "''CG63''"]
  by (simp add: find_first_two [OF candidates_Cons] first_candidates accepted_def
      indexErrors_def indexDefinitelyAbsent_def indexPossiblyExists_def storeReportsUsed_def
      mockService_def)

lemma generateWithCollision_error:
  "generateWithCollision svc url s = Inl e \<Longrightarrow> e = ErrMaxCapacityReached"
  by (simp add: generateWithCollision_find split: option.splits)

text \<open>
  Claim C6, as stated, fails on the code. For \<^verbatim>\<open>https://a.com\<close>, with an Index that
  reports every code as possibly existing and a Durable Store whose existence check
  reports every code unused, the loop and \<^verbatim>\<open>Generate\<close> return "capacity exhausted",
  although no candidate is found to be used: the first candidate \<^verbatim>\<open>CG62\<close>, like every
  other, is reported unused by the Durable Store.
\<close>

theorem capacity_exhausted_counterexample:
  "Encode (hashString ''https://a.com'') 4 = ''CG62''
   \<and> indexPossiblyExists (mockService (\<lambda>c. (True, None)) (\<lambda>c. (False, None))) () ''CG62''
   \<and> \<not> storeReportsUsed (mockService (\<lambda>c. (True, None)) (\<lambda>c. (False, None))) () ''CG62''
   \<and> generateWithCollision (mockService (\<lambda>c. (True, None)) (\<lambda>c. (False, None)))
        ''https://a.com'' () = Inl ErrMaxCapacityReached
   \<and> Generate (mockService (\<lambda>c. (True, None)) (\<lambda>c. (False, None))) exampleLib 0
        \<lparr>req_URL = ''https://a.com'', req_Params = None, req_ExpireAt = []\<rparr> ()
       = (Inl ErrMaxCapacityReached, ())"
proof -
  let ?svc = "mockService (\<lambda>c. (True, None)) (\<lambda>c. (False, None))"
  have rejected: "\<not> accepted ?svc () c" for c
    by (simp add: accepted_def indexErrors_def indexDefinitelyAbsent_def mockService_def)
  have none: "find (accepted ?svc ()) (candidates ''https://a.com'') = None"
    by (simp add: find_None_iff rejected)
  have loop: "generateWithCollision ?svc ''https://a.com'' () = Inl ErrMaxCapacityReached"
    by (simp add: generateWithCollision_find none)
  have miss: "cachedShortLink ?svc ''https://a.com'' () = None"
    by (simp add: cachedShortLink_def mockService_def)
  have nourl: "mysql_GetShortLinkByURL (mysqlRepo ?svc) ''https://a.com'' ()
      = Inl (BackendError ''not found'')"
    by (simp add: mockService_def)
  have gen: "Generate ?svc exampleLib 0
        \<lparr>req_URL = ''https://a.com'', req_Params = None, req_ExpireAt = []\<rparr> ()
      = (Inl ErrMaxCapacityReached, ())"
    by (simp add: Generate_def buildCacheKey_def miss nourl loop)
  show ?thesis
    using loop gen
    by (simp add: first_candidates indexPossiblyExists_def storeReportsUsed_def mockService_def)
qed

text \<open>
  Claim C6, amended. The collision loop returns "capacity exhausted" exactly when, for
  every length from 4 to 6 and every one of the 1000 attempts of that length, the
  candidate is passed over: the Index reports it as possibly existing, or the Durable
  Store's existence check reports it used. So the error is returned whenever the Durable
  Store reports every candidate used. \<^verbatim>\<open>Generate\<close> returns "capacity exhausted" exactly
  when it reaches the loop and the loop does; it then returns at once, leaving the
  backends as they were.
\<close>

theorem capacity_exhausted_iff:
  "(generateWithCollision svc url s = Inl ErrMaxCapacityReached)
     = (\<forall>len \<in> {4, 5, 6}. \<forall>i < 1000.
          indexPossiblyExists svc s (Encode (hashString url + of_nat i) len)
          \<or> storeReportsUsed svc s (Encode (hashString url + of_nat i) len))
   \<and> ((\<forall>len \<in> {4, 5, 6}. \<forall>i < 1000.
          storeReportsUsed svc s (Encode (hashString url + of_nat i) len))
        \<longrightarrow> generateWithCollision svc url s = Inl ErrMaxCapacityReached)
   \<and> (Generate svc lib now req s = (Inl ErrMaxCapacityReached, s'))
     = (reachesCollisionLoop svc lib req s
        \<and> (\<forall>len \<in> {4, 5, 6}. \<forall>i < 1000.
              indexPossiblyExists svc s (Encode (hashString (req_URL req) + of_nat i) len)
              \<or> storeReportsUsed svc s (Encode (hashString (req_URL req) + of_nat i) len))
        \<and> s' = s)"
proof -
  have loop: "(generateWithCollision svc url s = Inl ErrMaxCapacityReached)
      = (\<forall>len \<in> {4, 5, 6}. \<forall>i < 1000.
           indexPossiblyExists svc s (Encode (hashString url + of_nat i) len)
           \<or> storeReportsUsed svc s (Encode (hashString url + of_nat i) len))"
    for url
  proof -
    have "(generateWithCollision svc url s = Inl ErrMaxCapacityReached)
        = (find (accepted svc s) (candidates url) = None)"
      by (simp add: generateWithCollision_find split: option.split)
    also have "\<dots> = (\<forall>c \<in> set (candidates url).
                        indexPossiblyExists svc s c \<or> storeReportsUsed svc s c)"
      by (auto simp add: find_None_iff not_accepted_iff)
    finally show ?thesis
      by (simp only: all_candidates)
  qed
  have store: "generateWithCollision svc url s = Inl ErrMaxCapacityReached"
    if "\<forall>len \<in> {4, 5, 6}. \<forall>i < 1000.
          storeReportsUsed svc s (Encode (hashString url + of_nat i) len)"
    using that unfolding loop by blast
  have "(Generate svc lib now req s = (Inl ErrMaxCapacityReached, s'))
      = (reachesCollisionLoop svc lib req s
         \<and> generateWithCollision svc (req_URL req) s = Inl ErrMaxCapacityReached \<and> s' = s)"
    by (auto simp add: Generate_def reachesCollisionLoop_def Let_def
        split: sum.splits option.splits prod.splits if_splits
        dest: generateWithCollision_error)
  then have gen: "(Generate svc lib now req s = (Inl ErrMaxCapacityReached, s'))
      = (reachesCollisionLoop svc lib req s
        \<and> (\<forall>len \<in> {4, 5, 6}. \<forall>i < 1000.
              indexPossiblyExists svc s (Encode (hashString (req_URL req) + of_nat i) len)
              \<or> storeReportsUsed svc s (Encode (hashString (req_URL req) + of_nat i) len))
        \<and> s' = s)"
    by (simp only: loop)
  show ?thesis
    using loop [of url] store gen by blast
qed

theorem capacity_exhausted_iff_witness:
  "generateWithCollision (mockService (\<lambda>c. (False, None)) (\<lambda>c. (True, None))) ''https://example.com'' ()
     = Inl ErrMaxCapacityReached
   \<and> Generate (mockService (\<lambda>c. (False, None)) (\<lambda>c. (True, None))) exampleLib 0
        \<lparr>req_URL = ''https://example.com'', req_Params = None, req_ExpireAt = []\<rparr> ()
     = (Inl ErrMaxCapacityReached, ())
   \<and> generateWithCollision (mockService (\<lambda>c. (False, None)) (\<lambda>c. (False, None))) ''https://a.com'' ()
     \<noteq> Inl ErrMaxCapacityReached"
proof -
  let ?full = "mockService (\<lambda>c. (False, None)) (\<lambda>c. (True, None))"
  let ?free = "mockService (\<lambda>c. (False, None)) (\<lambda>c. (False, None))"
  let ?req = "\<lparr>req_URL = ''https://example.com'', req_Params = None, req_ExpireAt = []\<rparr>"
  have used: "storeReportsUsed ?full () c" for c
    by (simp add: storeReportsUsed_def mockService_def)
  have reach: "reachesCollisionLoop ?full exampleLib ?req ()"
    by (simp add: reachesCollisionLoop_def cachedShortLink_def buildCacheKey_def mockService_def)
  have unused: "\<not> (indexPossiblyExists ?free () (Encode (hashString ''https://a.com'' + of_nat 0) 4)
      \<or> storeReportsUsed ?free () (Encode (hashString ''https://a.com'' + of_nat 0) 4))"
    by (simp add: indexPossiblyExists_def storeReportsUsed_def mockService_def)
  have free: "\<not> (\<forall>len \<in> {4, 5, 6}. \<forall>i < 1000.
           indexPossiblyExists ?free () (Encode (hashString ''https://a.com'' + of_nat i) len)
           \<or> storeReportsUsed ?free () (Encode (hashString ''https://a.com'' + of_nat i) len))"
    using unused by (intro notI) (drule bspec [of _ _ 4], simp, drule spec [of _ 0], simp)
  note full = capacity_exhausted_iff [of ?full "''https://example.com''" "()" exampleLib 0 ?req "()"]
  note other = capacity_exhausted_iff [of ?free "''https://a.com''" "()" exampleLib 0 ?req "()"]
  have a: "generateWithCollision ?full ''https://example.com'' () = Inl ErrMaxCapacityReached"
    using full used by blast
  have b: "Generate ?full exampleLib 0 ?req () = (Inl ErrMaxCapacityReached, ())"
    using full used reach by simp
  have c: "generateWithCollision ?free ''https://a.com'' () \<noteq> Inl ErrMaxCapacityReached"
    using other free by blast
  show ?thesis
    using a b c by simp
qed

lemma withoutCheckErrors_fields:
  "mysql_SaveShortLink (mysqlRepo (withoutCheckErrors svc)) = mysql_SaveShortLink (mysqlRepo svc)"
  "mysql_GetShortLinkByCode (mysqlRepo (withoutCheckErrors svc)) = mysql_GetShortLinkByCode (mysqlRepo svc)"
  "mysql_GetShortLinkByURL (mysqlRepo (withoutCheckErrors svc)) = mysql_GetShortLinkByURL (mysqlRepo svc)"
  "redisRepo (withoutCheckErrors svc) = redisRepo svc"
  "bloomSvc (withoutCheckErrors svc) = bloomSvc svc"
  "domain (withoutCheckErrors svc) = domain svc"
  by (simp_all add: withoutCheckErrors_def)

lemma generateWithCollision_withoutCheckErrors:
  "generateWithCollision (withoutCheckErrors svc) url s = generateWithCollision svc url s"
  by (simp add: generateWithCollision_find accepted_withoutCheckErrors)

text \<open>
  Claim C2, as stated, fails on the code. With a Bloom filter that reports every code
  absent and an existence check that returns \<^verbatim>\<open>(false, error)\<close> on every code,
  \<^verbatim>\<open>Generate\<close> returns no error: it accepts the first candidate \<^verbatim>\<open>CG62\<close> and returns the
  response for it.
\<close>

theorem Generate_check_error_counterexample:
  "Generate (mockService (\<lambda>c. (False, None)) (\<lambda>c. (False, Some (BackendError ''db error''))))
     exampleLib 0 \<lparr>req_URL = ''https://a.com'', req_Params = None, req_ExpireAt = []\<rparr> ()
   = (Inr \<lparr>resp_ShortLink = ''https://s.example.com/CG62'', resp_ShortCode = ''CG62'',
           resp_OriginalURL = ''https://a.com'', resp_ExpireAt = zeroTime\<rparr>, ())"
  by (simp add: Generate_def cachedShortLink_def buildCacheKey_def buildResponse_def
      generateWithCollision_find find_first_two [OF candidates_Cons] first_candidates
      accepted_def indexErrors_def indexDefinitelyAbsent_def storeReportsUsed_def
      mockService_def)

text \<open>
  Claim C2, amended. An error returned by the Durable Store's existence check in the
  collision loop is discarded: the loop and \<^verbatim>\<open>Generate\<close> behave as if the check had
  returned the same flag without the error, so the candidate is accepted or passed over on
  the flag alone, and the only error the loop ever returns is "capacity exhausted".
\<close>

theorem check_error_discarded:
  "generateWithCollision (withoutCheckErrors svc) url s = generateWithCollision svc url s
   \<and> Generate (withoutCheckErrors svc) lib now req s = Generate svc lib now req s
   \<and> (generateWithCollision svc url s = Inl e \<longrightarrow> e = ErrMaxCapacityReached)"
proof -
  have "Generate (withoutCheckErrors svc) lib now req s = Generate svc lib now req s"
    unfolding Generate_def cachedShortLink_def buildResponse_def withoutCheckErrors_fields
      generateWithCollision_withoutCheckErrors
    by (rule refl)
  then show ?thesis
    by (simp add: generateWithCollision_withoutCheckErrors generateWithCollision_error)
qed

theorem check_error_discarded_witness:
  "generateWithCollision
     (mockService (\<lambda>c. (False, None)) (\<lambda>c. (False, Some (BackendError ''db error''))))
     ''https://a.com'' () = Inr ''CG62''
   \<and> generateWithCollision (mockService (\<lambda>c. (True, None)) (\<lambda>c. (True, Some (BackendError ''db error''))))
     ''https://a.com'' () = Inl ErrMaxCapacityReached"
proof -
  let ?down = "mockService (\<lambda>c. (False, None)) (\<lambda>c. (False, Some (BackendError ''db error'')))"
  let ?full = "mockService (\<lambda>c. (True, None)) (\<lambda>c. (True, Some (BackendError ''db error'')))"
  let ?req = "\<lparr>req_URL = ''https://a.com'', req_Params = None, req_ExpireAt = []\<rparr>"
  have a: "generateWithCollision (withoutCheckErrors ?down) ''https://a.com'' () = Inr ''CG62''"
    by (simp add: generateWithCollision_find find_first_two [OF candidates_Cons] first_candidates
        accepted_def indexErrors_def indexDefinitelyAbsent_def storeReportsUsed_def
        mockService_def withoutCheckErrors_def)
  have "find (accepted ?full ()) (candidates ''https://a.com'') = None"
    by (simp add: find_None_iff accepted_def indexErrors_def indexDefinitelyAbsent_def
        mockService_def)
  then have "\<exists>e. generateWithCollision ?full ''https://a.com'' () = Inl e"
    by (simp add: generateWithCollision_find)
  then show ?thesis
    using a check_error_discarded [of ?down "''https://a.com''" "()" exampleLib 0 ?req]
      check_error_discarded [of ?full "''https://a.com''" "()" exampleLib 0 ?req]
    by auto
qed

section \<open>Generate and Get on the repositories\<close>

lemma Generate_Inr_cases:
  assumes "Generate svc lib now req s = (Inr resp, s')"
  shows "req_URL req \<noteq> [] \<and> (req_ExpireAt req = [] \<or> \<not> isl (time_Parse lib (req_ExpireAt req)))
    \<and> ((\<exists>sl. cachedShortLink svc (buildCacheKey (req_URL req) (req_Params req)) s = Some sl
            \<and> resp = buildResponse svc sl \<and> s' = s)
       \<or> (\<exists>ex. cachedShortLink svc (buildCacheKey (req_URL req) (req_Params req)) s = None
            \<and> mysql_GetShortLinkByURL (mysqlRepo svc) (req_URL req) s = Inr ex
            \<and> resp = buildResponse svc ex
            \<and> s' = snd (redis_SaveShortLink (redisRepo svc)
                     (buildCacheKey (req_URL req) (req_Params req)) (ShortCode ex)
                     ShortLinkCacheTTL s))
       \<or> (\<exists>c sl.
            generateWithCollision svc (req_URL req) s = Inr c
            \<and> sl = \<lparr>ID = 0, ShortCode = c, OriginalURL = req_URL req,
                    Params = (case req_Params req of None \<Rightarrow> [] | Some ps \<Rightarrow> json_Marshal lib ps),
                    CreatedAt = now,
                    ExpireAt = (if req_ExpireAt req = [] then None
                                else Some (projr (time_Parse lib (req_ExpireAt req)))),
                    Status = 1\<rparr>
            \<and> ShortCode sl = c \<and> Status sl = 1
            \<and> fst (mysql_SaveShortLink (mysqlRepo svc) sl s) = None
            \<and> resp = buildResponse svc sl
            \<and> s' = snd (bloom_Add (bloomSvc svc) c
                     (snd (redis_SaveShortLink (redisRepo svc) c (req_URL req) ShortLinkCacheTTL
                       (snd (redis_SaveShortLink (redisRepo svc)
                          (buildCacheKey (req_URL req) (req_Params req)) c ShortLinkCacheTTL
                          (snd (mysql_SaveShortLink (mysqlRepo svc) sl s)))))))))"
  using assms
  by (auto simp add: Generate_def Let_def
      split: sum.splits option.splits prod.splits if_splits)

lemma Generate_cache_hit:
  assumes "req_URL req \<noteq> []"
    and "req_ExpireAt req = [] \<or> \<not> isl (time_Parse lib (req_ExpireAt req))"
    and "cachedShortLink svc (buildCacheKey (req_URL req) (req_Params req)) s = Some sl"
  shows "Generate svc lib now req s = (Inr (buildResponse svc sl), s)"
  using assms
  by (auto simp add: Generate_def Let_def split: sum.splits)

lemma Generate_existing:
  assumes "req_URL req \<noteq> []"
    and "req_ExpireAt req = [] \<or> \<not> isl (time_Parse lib (req_ExpireAt req))"
    and "cachedShortLink svc (buildCacheKey (req_URL req) (req_Params req)) s = None"
    and "mysql_GetShortLinkByURL (mysqlRepo svc) (req_URL req) s = Inr ex"
  shows "Generate svc lib now req s
    = (Inr (buildResponse svc ex),
       snd (redis_SaveShortLink (redisRepo svc) (buildCacheKey (req_URL req) (req_Params req))
              (ShortCode ex) ShortLinkCacheTTL s))"
  using assms
  by (auto simp add: Generate_def Let_def split: sum.splits prod.splits)

lemma NewShortLinkService_fields:
  "mysqlRepo (NewShortLinkService bloomAdd bloomExists dn) =
     \<lparr>mysql_SaveShortLink = SaveShortLink_mysql,
      mysql_GetShortLinkByCode = GetShortLinkByCode,
      mysql_GetShortLinkByURL = GetShortLinkByURL,
      mysql_CheckExistsByCode = CheckExistsByCode\<rparr>"
  "redisRepo (NewShortLinkService bloomAdd bloomExists dn) =
     \<lparr>redis_SaveShortLink = SaveShortLink_redis,
      redis_GetShortLink = GetShortLink_redis\<rparr>"
  "bloom_Exists (bloomSvc (NewShortLinkService bloomAdd bloomExists dn)) =
     (\<lambda>c st. bloomExists c (index st))"
  "bloom_Add (bloomSvc (NewShortLinkService bloomAdd bloomExists dn)) =
     (\<lambda>c st. case bloomAdd c (index st) of (err, b) \<Rightarrow> (err, st\<lparr>index := b\<rparr>))"
  "domain (NewShortLinkService bloomAdd bloomExists dn) = dn"
  by (simp_all add: NewShortLinkService_def)

lemma find_Some_holds: "find P xs = Some x \<Longrightarrow> x \<in> set xs \<and> P x"
  by (auto simp add: find_Some_iff)

lemma find_member: "x \<in> set xs \<Longrightarrow> P x \<Longrightarrow> \<exists>y. find P xs = Some y \<and> P y"
  by (induction xs) auto

lemma cachedShortLink_store:
  assumes "kv st (shortLinkKey key) = Some c" and "c \<noteq> []"
    and "r \<in> set (rows st)" and "ShortCode r = c" and "Status r = 1"
  shows "\<exists>r'. cachedShortLink (NewShortLinkService bloomAdd bloomExists dn) key st = Some r'
           \<and> ShortCode r' = c"
proof -
  obtain r' where "find (\<lambda>x. ShortCode x = c \<and> Status x = 1) (rows st) = Some r'"
    and "ShortCode r' = c"
    using find_member [of r "rows st" "\<lambda>x. ShortCode x = c \<and> Status x = 1"] assms by auto
  then show ?thesis
    using assms
    by (simp add: cachedShortLink_def NewShortLinkService_def GetShortLink_redis_def
        GetShortLinkByCode_def)
qed

lemma generateWithCollision_candidate:
  assumes "generateWithCollision svc url s = Inr c"
  shows "c \<in> set (candidates url) \<and> accepted svc s c"
  using assms
  by (auto simp add: generateWithCollision_find find_Some_iff split: option.splits)

lemma Encode_chars: "set (Encode n len) \<subseteq> set Base32Alphabet"
  by (simp add: Encode_def encodeLoop_chars)

lemma Encode_nonempty: "Encode n len \<noteq> []"
proof -
  have "0 < length (Encode n len)"
    by (simp add: Encode_def encodeLoop_length MinLength_def MaxLength_def)
  then show ?thesis by auto
qed

lemma candidate_shape:
  assumes "c \<in> set (candidates url)"
  shows "c \<noteq> [] \<and> CHR '':'' \<notin> set c"
proof -
  obtain n len where c: "c = Encode n len"
    using assms by (auto simp add: candidates_def)
  have "CHR '':'' \<notin> set Base32Alphabet"
    by (simp add: Base32Alphabet_def)
  then show ?thesis
    using Encode_chars [of n len] Encode_nonempty [of n len] c by auto
qed

lemma buildCacheKey_cases:
  "buildCacheKey url params = url \<or> CHR '':'' \<in> set (buildCacheKey url params)"
  by (auto simp add: buildCacheKey_def split: option.splits)

text \<open>
  Claim C4. \<^verbatim>\<open>Generate\<close> is idempotent on the repositories when no backend call fails:
  if a call returns a response, a second call with the same request, made on the state
  the first call left (at any later time), returns a response with the same short code,
  and adds no row to the table. The Bloom filter service may be any.
\<close>

theorem Generate_idempotent:
  assumes first: "Generate (NewShortLinkService bloomAdd bloomExists dn) lib now req st = (Inr resp, st')"
  shows "\<exists>resp' st''.
           Generate (NewShortLinkService bloomAdd bloomExists dn) lib now' req st' = (Inr resp', st'')
           \<and> resp_ShortCode resp' = resp_ShortCode resp
           \<and> rows st'' = rows st'"
proof -
  let ?svc = "NewShortLinkService bloomAdd bloomExists dn"
  let ?key = "buildCacheKey (req_URL req) (req_Params req)"
  note cases = Generate_Inr_cases [OF first]
  from cases have url: "req_URL req \<noteq> []"
    and exp: "req_ExpireAt req = [] \<or> \<not> isl (time_Parse lib (req_ExpireAt req))"
    by auto
  have code: "resp_ShortCode (buildResponse ?svc sl) = ShortCode sl" for sl
    by (simp add: buildResponse_def)
  from cases consider
      (cached) sl where "cachedShortLink ?svc ?key st = Some sl"
        "resp = buildResponse ?svc sl" "st' = st"
    | (existing) ex where "cachedShortLink ?svc ?key st = None"
        "mysql_GetShortLinkByURL (mysqlRepo ?svc) (req_URL req) st = Inr ex"
        "resp = buildResponse ?svc ex"
        "st' = snd (redis_SaveShortLink (redisRepo ?svc) ?key (ShortCode ex) ShortLinkCacheTTL st)"
    | (fresh) c sl where "generateWithCollision ?svc (req_URL req) st = Inr c"
        "ShortCode sl = c" "Status sl = 1"
        "fst (mysql_SaveShortLink (mysqlRepo ?svc) sl st) = None"
        "resp = buildResponse ?svc sl"
        "st' = snd (bloom_Add (bloomSvc ?svc) c
                 (snd (redis_SaveShortLink (redisRepo ?svc) c (req_URL req) ShortLinkCacheTTL
                   (snd (redis_SaveShortLink (redisRepo ?svc) ?key c ShortLinkCacheTTL
                     (snd (mysql_SaveShortLink (mysqlRepo ?svc) sl st)))))))"
    by blast
  then show ?thesis
  proof cases
    case cached
    then show ?thesis
      using Generate_cache_hit [OF url exp, of ?svc st sl now'] by simp
  next
    case existing
    from existing(2) have found: "find (\<lambda>r. OriginalURL r = req_URL req \<and> Status r = 1) (rows st) = Some ex"
      by (simp add: NewShortLinkService_def GetShortLinkByURL_def split: option.splits)
    then have ex: "ex \<in> set (rows st)" "Status ex = 1"
      using find_Some_holds by fastforce+
    have st': "st' = st\<lparr>kv := (kv st)(shortLinkKey ?key \<mapsto> ShortCode ex)\<rparr>"
      using existing(4) by (simp add: NewShortLinkService_def SaveShortLink_redis_def)
    show ?thesis
    proof (cases "ShortCode ex = []")
      case False
      obtain r' where "cachedShortLink ?svc ?key st' = Some r'" and "ShortCode r' = ShortCode ex"
        using cachedShortLink_store [of st' ?key "ShortCode ex" ex bloomAdd bloomExists dn] ex False
        by (auto simp add: st')
      then show ?thesis
        using Generate_cache_hit [OF url exp, of ?svc st' r' now'] existing(3) by (simp add: code)
    next
      case True
      have miss: "cachedShortLink ?svc ?key st' = None"
        using True by (simp add: cachedShortLink_def NewShortLinkService_def
            GetShortLink_redis_def st')
      have again: "mysql_GetShortLinkByURL (mysqlRepo ?svc) (req_URL req) st' = Inr ex"
        using found by (simp add: NewShortLinkService_def GetShortLinkByURL_def st')
      show ?thesis
        using Generate_existing [OF url exp miss again, of now'] existing(3)
        by (simp add: code NewShortLinkService_def SaveShortLink_redis_def)
    qed
  next
    case fresh
    have cand: "c \<in> set (candidates (req_URL req))"
      using generateWithCollision_candidate [OF fresh(1)] by simp
    then have shape: "c \<noteq> []" "CHR '':'' \<notin> set c"
      using candidate_shape by auto
    have s1: "snd (mysql_SaveShortLink (mysqlRepo ?svc) sl st)
        = st\<lparr>rows := rows st @ [sl\<lparr>ID := nextID (rows st)\<rparr>]\<rparr>"
      using fresh(4)
      by (auto simp add: NewShortLinkService_def SaveShortLink_mysql_def split: if_splits)
    obtain b where st': "st' = st\<lparr>rows := rows st @ [sl\<lparr>ID := nextID (rows st)\<rparr>],
        kv := (kv st)(shortLinkKey ?key \<mapsto> c, shortLinkKey c \<mapsto> req_URL req),
        index := b\<rparr>"
      using fresh(6) unfolding s1
      by (cases "bloomAdd c (index st)")
         (simp add: NewShortLinkService_def SaveShortLink_redis_def)
    have cached: "kv st' (shortLinkKey ?key) = Some c"
    proof (cases "?key = c")
      case True
      then have "?key = req_URL req"
        using buildCacheKey_cases [of "req_URL req" "req_Params req"] shape by auto
      then show ?thesis using True by (simp add: st')
    next
      case False
      then show ?thesis by (simp add: st' shortLinkKey_def)
    qed
    have row: "sl\<lparr>ID := nextID (rows st)\<rparr> \<in> set (rows st')"
      by (simp add: st')
    obtain r' where "cachedShortLink ?svc ?key st' = Some r'" and "ShortCode r' = c"
      using cachedShortLink_store [OF cached shape(1) row, of bloomAdd bloomExists dn] fresh(2,3)
      by auto
    then show ?thesis
      using Generate_cache_hit [OF url exp, of ?svc st' r' now'] fresh(2,5) by (simp add: code)
  qed
qed

theorem Generate_idempotent_witness:
  "Generate (NewShortLinkService (\<lambda>c b. (None, b)) (\<lambda>c b. (False, None)) ''https://s.example.com'')
     exampleLib 0 \<lparr>req_URL = ''https://a.com'', req_Params = None, req_ExpireAt = []\<rparr>
     \<lparr>rows = [], kv = Map.empty, index = ()\<rparr>
   = (Inr \<lparr>resp_ShortLink = ''https://s.example.com/CG62'', resp_ShortCode = ''CG62'',
           resp_OriginalURL = ''https://a.com'', resp_ExpireAt = zeroTime\<rparr>,
      \<lparr>rows = [\<lparr>ID = 1, ShortCode = ''CG62'', OriginalURL = ''https://a.com'', Params = [],
                CreatedAt = 0, ExpireAt = None, Status = 1\<rparr>],
       kv = [''sl:https://a.com'' \<mapsto> ''CG62'', ''sl:CG62'' \<mapsto> ''https://a.com''],
       index = ()\<rparr>)
   \<and> (\<exists>resp' st''.
        Generate (NewShortLinkService (\<lambda>c b. (None, b)) (\<lambda>c b. (False, None)) ''https://s.example.com'')
          exampleLib 60 \<lparr>req_URL = ''https://a.com'', req_Params = None, req_ExpireAt = []\<rparr>
          \<lparr>rows = [\<lparr>ID = 1, ShortCode = ''CG62'', OriginalURL = ''https://a.com'', Params = [],
                    CreatedAt = 0, ExpireAt = None, Status = 1\<rparr>],
           kv = [''sl:https://a.com'' \<mapsto> ''CG62'', ''sl:CG62'' \<mapsto> ''https://a.com''],
           index = ()\<rparr>
        = (Inr resp', st'')
        \<and> resp_ShortCode resp' = ''CG62''
        \<and> rows st'' = [\<lparr>ID = 1, ShortCode = ''CG62'', OriginalURL = ''https://a.com'', Params = [],
                    CreatedAt = 0, ExpireAt = None, Status = 1\<rparr>])"
proof -
  let ?svc = "NewShortLinkService (\<lambda>c b. (None, b)) (\<lambda>c b. (False, None)) ''https://s.example.com''"
  have acc: "accepted ?svc \<lparr>rows = [], kv = Map.empty, index = ()\<rparr> ''CG62''"
    by (simp add: accepted_def indexErrors_def indexDefinitelyAbsent_def storeReportsUsed_def
        NewShortLinkService_fields CheckExistsByCode_def)
  have gen: "generateWithCollision ?svc ''https://a.com'' \<lparr>rows = [], kv = Map.empty, index = ()\<rparr>
      = Inr ''CG62''"
    using acc
    by (simp add: generateWithCollision_find find_first_two [OF candidates_Cons] first_candidates)
  have first: "Generate ?svc exampleLib 0
       \<lparr>req_URL = ''https://a.com'', req_Params = None, req_ExpireAt = []\<rparr>
       \<lparr>rows = [], kv = Map.empty, index = ()\<rparr>
     = (Inr \<lparr>resp_ShortLink = ''https://s.example.com/CG62'', resp_ShortCode = ''CG62'',
             resp_OriginalURL = ''https://a.com'', resp_ExpireAt = zeroTime\<rparr>,
        \<lparr>rows = [\<lparr>ID = 1, ShortCode = ''CG62'', OriginalURL = ''https://a.com'', Params = [],
                  CreatedAt = 0, ExpireAt = None, Status = 1\<rparr>],
         kv = [''sl:https://a.com'' \<mapsto> ''CG62'', ''sl:CG62'' \<mapsto> ''https://a.com''],
         index = ()\<rparr>)"
    by (simp add: Generate_def gen cachedShortLink_def buildCacheKey_def buildResponse_def
        NewShortLinkService_fields GetShortLink_redis_def GetShortLinkByURL_def
        SaveShortLink_mysql_def SaveShortLink_redis_def shortLinkKey_def nextID_def)
  show ?thesis
    using first Generate_idempotent [OF first, of 60] by simp
qed

lemma Get_cache_miss:
  assumes "kv st (shortLinkKey code) = None"
  shows "Get (NewShortLinkService bloomAdd bloomExists dn) now code st =
     (case find (\<lambda>r. ShortCode r = code \<and> Status r = 1) (rows st) of
        None \<Rightarrow> (Inl ErrShortLinkNotFound, st)
      | Some sl \<Rightarrow>
          if ExpireAt sl \<noteq> None \<and> the (ExpireAt sl) < now then (Inl ErrShortLinkExpired, st)
          else (Inr sl, st\<lparr>kv := (kv st)(shortLinkKey code \<mapsto> OriginalURL sl)\<rparr>))"
proof (cases "find (\<lambda>r. ShortCode r = code \<and> Status r = 1) (rows st)")
  case None
  then show ?thesis
    using assms
    by (simp add: Get_def NewShortLinkService_def GetShortLink_redis_def GetShortLinkByCode_def)
next
  case (Some sl)
  then have "Status sl = 1"
    using find_Some_holds by fastforce
  then show ?thesis
    using assms Some
    by (simp add: Get_def NewShortLinkService_def GetShortLink_redis_def GetShortLinkByCode_def
        IsActive_def SaveShortLink_redis_def)
qed

text \<open>
  Claim C3 fails on the code for a disabled entry. The table holds one row, for the code
  \<^verbatim>\<open>ABCD\<close>, with \<^verbatim>\<open>status = 0\<close>; the cache is empty. \<^verbatim>\<open>GetShortLinkByCode\<close> selects
  with \<^verbatim>\<open>status = 1\<close>, so it does not return the row, and \<^verbatim>\<open>Get\<close> answers "not found",
  not "expired".
\<close>

theorem Get_disabled_entry_not_found:
  "Get (NewShortLinkService (\<lambda>c b. (None, b)) (\<lambda>c b. (False, None)) ''https://s.example.com'')
     1000 ''ABCD''
     \<lparr>rows = [\<lparr>ID = 1, ShortCode = ''ABCD'', OriginalURL = ''https://example.com'',
               Params = [], CreatedAt = 0, ExpireAt = None, Status = 0\<rparr>],
      kv = Map.empty, index = ()\<rparr>
   = (Inl ErrShortLinkNotFound,
      \<lparr>rows = [\<lparr>ID = 1, ShortCode = ''ABCD'', OriginalURL = ''https://example.com'',
               Params = [], CreatedAt = 0, ExpireAt = None, Status = 0\<rparr>],
      kv = Map.empty, index = ()\<rparr>)"
  by (simp add: Get_def NewShortLinkService_def GetShortLink_redis_def GetShortLinkByCode_def)

section \<open>ExpandURL\<close>

lemma fold_values_Set:
  "distinct (map fst ps) \<Longrightarrow>
     fold (\<lambda>(key, val) q. values_Set q key val) ps q = mergedQuery q ps"
proof (induction ps arbitrary: q)
  case Nil
  show ?case by (simp add: mergedQuery_def)
next
  case (Cons p ps)
  obtain k v where p: "p = (k, v)" by (cases p)
  from Cons.prems p have notin: "k \<notin> fst ` set ps" and d: "distinct (map fst ps)"
    by auto
  have m: "map_of ps k = None"
    using notin by (simp add: map_of_eq_None_iff)
  have "fold (\<lambda>(key, val) q. values_Set q key val) (p # ps) q = mergedQuery (values_Set q k v) ps"
    using Cons.IH [OF d] p by simp
  also have "\<dots> = mergedQuery q (p # ps)"
    using m by (auto simp add: mergedQuery_def values_Set_def p fun_eq_iff split: option.splits)
  finally show ?case .
qed

text \<open>
  Claim C7. When \<^verbatim>\<open>Get\<close> resolves the code to an entry: if the stored URL does not parse,
  \<^verbatim>\<open>ExpandURL\<close> returns the stored URL as it is, with no error; if it parses, the result
  is the URL re-serialised with the merged query, in which every supplied key has its
  supplied value alone (whatever the order in which the supplied map is visited) and
  every other key keeps the values of the stored URL.
\<close>

theorem ExpandURL_merges:
  assumes "Get svc now shortCode s = (Inr sl, s1)"
  shows "(isl (url_Parse lib (OriginalURL sl)) \<longrightarrow>
            ExpandURL svc lib now shortCode queryParams s = (Inr (OriginalURL sl), s1))
    \<and> (url_Parse lib (OriginalURL sl) = Inr u \<and> distinct (map fst queryParams) \<longrightarrow>
          ExpandURL svc lib now shortCode queryParams s
            = (Inr (url_String lib
                 (u\<lparr>RawQuery := values_Encode lib (mergedQuery (url_Query lib u) queryParams)\<rparr>)),
               s1)
          \<and> (\<forall>key val. (key, val) \<in> set queryParams \<longrightarrow>
                 mergedQuery (url_Query lib u) queryParams key = Some [val])
          \<and> (\<forall>key. key \<notin> fst ` set queryParams \<longrightarrow>
                 mergedQuery (url_Query lib u) queryParams key = url_Query lib u key))"
proof (intro conjI impI allI)
  assume "isl (url_Parse lib (OriginalURL sl))"
  then show "ExpandURL svc lib now shortCode queryParams s = (Inr (OriginalURL sl), s1)"
    using assms by (auto simp add: ExpandURL_def isl_def)
next
  assume a: "url_Parse lib (OriginalURL sl) = Inr u \<and> distinct (map fst queryParams)"
  then show "ExpandURL svc lib now shortCode queryParams s
            = (Inr (url_String lib
                 (u\<lparr>RawQuery := values_Encode lib (mergedQuery (url_Query lib u) queryParams)\<rparr>)),
               s1)"
    using assms by (simp add: ExpandURL_def fold_values_Set)
next
  fix key val
  assume a: "url_Parse lib (OriginalURL sl) = Inr u \<and> distinct (map fst queryParams)"
    and "(key, val) \<in> set queryParams"
  then have "map_of queryParams key = Some val"
    by simp
  then show "mergedQuery (url_Query lib u) queryParams key = Some [val]"
    by (simp add: mergedQuery_def)
next
  fix key
  assume "key \<notin> fst ` set queryParams"
  then have "map_of queryParams key = None"
    by (simp add: map_of_eq_None_iff)
  then show "mergedQuery (url_Query lib u) queryParams key = url_Query lib u key"
    by (simp add: mergedQuery_def)
qed

theorem ExpandURL_merges_witness:
  "ExpandURL (NewShortLinkService (\<lambda>c b. (None, b)) (\<lambda>c b. (False, None)) ''https://s.example.com'')
     exampleLib 0 ''ABCD'' [(''a'', ''1''), (''b'', ''2'')]
     \<lparr>rows = [], kv = [''sl:ABCD'' \<mapsto> ''https://x.com?a=0''], index = ()\<rparr>
   = (Inr ''https://x.com?a=1&b=2'',
      \<lparr>rows = [], kv = [''sl:ABCD'' \<mapsto> ''https://x.com?a=0''], index = ()\<rparr>)
   \<and> ExpandURL (NewShortLinkService (\<lambda>c b. (None, b)) (\<lambda>c b. (False, None)) ''https://s.example.com'')
     exampleLib 0 ''ABCD'' [(''a'', ''1''), (''b'', ''2'')]
     \<lparr>rows = [], kv = [''sl:ABCD'' \<mapsto> ''://bad''], index = ()\<rparr>
   = (Inr ''://bad'', \<lparr>rows = [], kv = [''sl:ABCD'' \<mapsto> ''://bad''], index = ()\<rparr>)"
proof -
  let ?svc = "NewShortLinkService (\<lambda>c b. (None, b)) (\<lambda>c b. (False, None)) ''https://s.example.com''"
  let ?st1 = "\<lparr>rows = [], kv = [''sl:ABCD'' \<mapsto> ''https://x.com?a=0''], index = ()\<rparr>"
  let ?st2 = "\<lparr>rows = [], kv = [''sl:ABCD'' \<mapsto> ''://bad''], index = ()\<rparr>"
  let ?u = "\<lparr>Scheme = ''https'', Host = ''x.com'', Path = [], RawQuery = ''a=0'', Fragment = []\<rparr>"
  have g1: "Get ?svc 0 ''ABCD'' ?st1
      = (Inr \<lparr>ID = 0, ShortCode = ''ABCD'', OriginalURL = ''https://x.com?a=0'', Params = [],
              CreatedAt = zeroTime, ExpireAt = None, Status = 0\<rparr>, ?st1)"
    by (simp add: Get_def NewShortLinkService_fields GetShortLink_redis_def shortLinkKey_def)
  have g2: "Get ?svc 0 ''ABCD'' ?st2
      = (Inr \<lparr>ID = 0, ShortCode = ''ABCD'', OriginalURL = ''://bad'', Params = [],
              CreatedAt = zeroTime, ExpireAt = None, Status = 0\<rparr>, ?st2)"
    by (simp add: Get_def NewShortLinkService_fields GetShortLink_redis_def shortLinkKey_def)
  have p1: "url_Parse exampleLib ''https://x.com?a=0'' = Inr ?u"
    by (simp add: exampleLib_def exampleParse_def HasPrefix_def)
  have p2: "isl (url_Parse exampleLib ''://bad'')"
    by (simp add: exampleLib_def exampleParse_def HasPrefix_def)
  have q: "url_Query exampleLib ?u = [''a'' \<mapsto> [''0'']]"
    by (simp add: exampleLib_def exampleQuery_def)
  have e: "url_String exampleLib
      (?u\<lparr>RawQuery := values_Encode exampleLib
          (mergedQuery [''a'' \<mapsto> [''0'']] [(''a'', ''1''), (''b'', ''2'')])\<rparr>)
      = ''https://x.com?a=1&b=2''"
    by (simp add: exampleLib_def exampleEncode_def exampleString_def mergedQuery_def)
  show ?thesis
    using ExpandURL_merges [OF g1, of exampleLib "[(''a'', ''1''), (''b'', ''2'')]" ?u]
      ExpandURL_merges [OF g2, of exampleLib "[(''a'', ''1''), (''b'', ''2'')]" ?u]
      p1 p2 q e
    by simp
qed

section \<open>Analytics\<close>

lemma Split_nonempty: "Split s sep \<noteq> []"
  by (induction s) (auto split: list.splits)

lemma Split_join: "joinWith [sep] (Split s sep) = s"
proof (induction s)
  case Nil
  show ?case by simp
next
  case (Cons c cs)
  obtain p ps where sp: "Split cs sep = p # ps"
    using Split_nonempty [of cs sep] by (cases "Split cs sep") auto
  show ?case
    using Cons sp by (cases ps) auto
qed

lemma Split_parts: "p \<in> set (Split s sep) \<Longrightarrow> sep \<notin> set p"
  by (induction s arbitrary: p) (auto split: if_splits list.splits)

lemma Split_single: "sep \<notin> set s \<Longrightarrow> Split s sep = [s]"
  by (induction s) auto

lemma extractSource_host:
  assumes "referer \<noteq> []" and "url_Parse lib referer = Inr u"
  shows "extractSource lib referer = sourceOfHost (stripWWW (Host u))"
  using assms
  by (simp add: extractSource_def sourceOfHost_def stripWWW_def knownSources_def Let_def)

text \<open>
  Claim C8. \<^verbatim>\<open>extractSource\<close> maps the empty referer to \<^verbatim>\<open>direct\<close> and a referer that
  does not parse to \<^verbatim>\<open>unknown\<close>. Otherwise the result is the source of the referer's host
  after a leading \<^verbatim>\<open>www.\<close> is removed: the label of the first keyword of the fixed list
  that occurs in it; with no keyword, the second-to-last dot-separated label, and a host
  without a dot as it is. So a referer with host \<^verbatim>\<open>www.google.com\<close> gives \<^verbatim>\<open>google\<close>
  and one with host \<^verbatim>\<open>blog.example.com\<close> gives \<^verbatim>\<open>example\<close>.
\<close>

theorem extractSource_classification:
  "extractSource lib [] = ''direct''
   \<and> (referer \<noteq> [] \<and> isl (url_Parse lib referer) \<longrightarrow> extractSource lib referer = ''unknown'')
   \<and> (referer \<noteq> [] \<and> url_Parse lib referer = Inr u \<longrightarrow>
        extractSource lib referer = sourceOfHost (stripWWW (Host u)))
   \<and> (referer \<noteq> [] \<and> url_Parse lib referer = Inr u \<and> Host u = ''www.google.com'' \<longrightarrow>
        extractSource lib referer = ''google'')
   \<and> (referer \<noteq> [] \<and> url_Parse lib referer = Inr u \<and> Host u = ''blog.example.com'' \<longrightarrow>
        extractSource lib referer = ''example'')
   \<and> (find (\<lambda>(keyword, label). Contains host keyword) knownSources = Some (keyword, label) \<longrightarrow>
        sourceOfHost host = label)
   \<and> (find (\<lambda>(keyword, label). Contains host keyword) knownSources = None
        \<and> 2 \<le> length (Split host CHR ''.'') \<longrightarrow>
        sourceOfHost host = Split host CHR ''.'' ! (length (Split host CHR ''.'') - 2))
   \<and> (find (\<lambda>(keyword, label). Contains host keyword) knownSources = None
        \<and> CHR ''.'' \<notin> set host \<longrightarrow>
        sourceOfHost host = host)"
proof (intro conjI impI)
  show "extractSource lib [] = ''direct''"
    by (simp add: extractSource_def)
next
  assume "referer \<noteq> [] \<and> isl (url_Parse lib referer)"
  then show "extractSource lib referer = ''unknown''"
    by (auto simp add: extractSource_def isl_def)
next
  assume "referer \<noteq> [] \<and> url_Parse lib referer = Inr u"
  then show "extractSource lib referer = sourceOfHost (stripWWW (Host u))"
    by (simp add: extractSource_host)
next
  assume "referer \<noteq> [] \<and> url_Parse lib referer = Inr u \<and> Host u = ''www.google.com''"
  then have "extractSource lib referer = sourceOfHost (stripWWW ''www.google.com'')"
    by (simp add: extractSource_host)
  also have "stripWWW ''www.google.com'' = ''google.com''"
    by (simp add: stripWWW_def HasPrefix_def)
  also have "sourceOfHost ''google.com'' = ''google''"
    by (simp add: sourceOfHost_def knownSources_def HasPrefix_def)
  finally show "extractSource lib referer = ''google''" .
next
  assume "referer \<noteq> [] \<and> url_Parse lib referer = Inr u \<and> Host u = ''blog.example.com''"
  then have "extractSource lib referer = sourceOfHost (stripWWW ''blog.example.com'')"
    by (simp add: extractSource_host)
  also have "stripWWW ''blog.example.com'' = ''blog.example.com''"
    by (simp add: stripWWW_def HasPrefix_def)
  also have "sourceOfHost ''blog.example.com'' = ''example''"
    by (simp add: sourceOfHost_def knownSources_def HasPrefix_def)
  finally show "extractSource lib referer = ''example''" .
next
  assume "find (\<lambda>(keyword, label). Contains host keyword) knownSources = Some (keyword, label)"
  then show "sourceOfHost host = label"
    by (simp add: sourceOfHost_def)
next
  assume "find (\<lambda>(keyword, label). Contains host keyword) knownSources = None
    \<and> 2 \<le> length (Split host CHR ''.'')"
  then show "sourceOfHost host = Split host CHR ''.'' ! (length (Split host CHR ''.'') - 2)"
    by (simp add: sourceOfHost_def Let_def)
next
  assume "find (\<lambda>(keyword, label). Contains host keyword) knownSources = None
    \<and> CHR ''.'' \<notin> set host"
  then show "sourceOfHost host = host"
    by (simp add: sourceOfHost_def Split_single)
qed

theorem extractSource_classification_witness:
  "extractSource exampleLib ''https://www.google.com/search'' = ''google''
   \<and> extractSource exampleLib ''https://blog.example.com'' = ''example''
   \<and> extractSource exampleLib ''://bad'' = ''unknown''
   \<and> extractSource exampleLib ''https://localhost'' = ''localhost''"
proof -
  let ?g = "\<lparr>Scheme = ''https'', Host = ''www.google.com'', Path = ''/search'', RawQuery = [],
             Fragment = []\<rparr>"
  let ?b = "\<lparr>Scheme = ''https'', Host = ''blog.example.com'', Path = [], RawQuery = [],
             Fragment = []\<rparr>"
  let ?l = "\<lparr>Scheme = ''https'', Host = ''localhost'', Path = [], RawQuery = [],
             Fragment = []\<rparr>"
  have p1: "url_Parse exampleLib ''https://www.google.com/search'' = Inr ?g"
    by (simp add: exampleLib_def exampleParse_def HasPrefix_def)
  have p2: "url_Parse exampleLib ''https://blog.example.com'' = Inr ?b"
    by (simp add: exampleLib_def exampleParse_def HasPrefix_def)
  have p3: "isl (url_Parse exampleLib ''://bad'')"
    by (simp add: exampleLib_def exampleParse_def HasPrefix_def)
  have p4: "url_Parse exampleLib ''https://localhost'' = Inr ?l"
    by (simp add: exampleLib_def exampleParse_def HasPrefix_def)
  have f4: "find (\<lambda>(keyword, label). Contains ''localhost'' keyword) knownSources = None"
    by (simp add: knownSources_def HasPrefix_def)
  have s4: "stripWWW ''localhost'' = ''localhost''"
    by (simp add: stripWWW_def HasPrefix_def)
  have w1: "extractSource exampleLib ''https://www.google.com/search'' = ''google''"
    by (rule extractSource_classification
          [where lib = exampleLib and referer = "''https://www.google.com/search''" and u = ?g,
            THEN conjunct2, THEN conjunct2, THEN conjunct2, THEN conjunct1, THEN mp])
       (simp add: p1)
  have w2: "extractSource exampleLib ''https://blog.example.com'' = ''example''"
    by (rule extractSource_classification
          [where lib = exampleLib and referer = "''https://blog.example.com''" and u = ?b,
            THEN conjunct2, THEN conjunct2, THEN conjunct2, THEN conjunct2, THEN conjunct1,
            THEN mp])
       (simp add: p2)
  have w3: "extractSource exampleLib ''://bad'' = ''unknown''"
    by (rule extractSource_classification
          [where lib = exampleLib and referer = "''://bad''", THEN conjunct2, THEN conjunct1,
            THEN mp])
       (simp add: p3)
  have "extractSource exampleLib ''https://localhost'' = sourceOfHost (stripWWW (Host ?l))"
    by (rule extractSource_classification
          [where lib = exampleLib and referer = "''https://localhost''" and u = ?l,
            THEN conjunct2, THEN conjunct2, THEN conjunct1, THEN mp])
       (simp add: p4)
  also have "\<dots> = ''localhost''"
    unfolding URL.simps s4
    by (rule extractSource_classification
          [where host = "''localhost''", THEN conjunct2, THEN conjunct2, THEN conjunct2,
            THEN conjunct2, THEN conjunct2, THEN conjunct2, THEN conjunct2, THEN mp])
       (rule conjI, rule f4, simp)
  finally show ?thesis
    using w1 w2 w3 by simp
qed

text \<open>
  Claim C9. When the read of the source counters fails, \<^verbatim>\<open>GetAnalytics\<close> returns no
  error: \<^verbatim>\<open>GetStats\<close> returns its statistics, and \<^verbatim>\<open>GetAnalytics\<close> returns a response
  with their PV and UV and an empty list of sources.
\<close>

theorem GetAnalytics_sources_error:
  assumes "snd (redis_GetSources repo shortCode s) \<noteq> None"
  shows "\<exists>stats. GetStats repo shortCode s = Inr stats
           \<and> GetAnalytics repo shortCode s
               = Inr \<lparr>ar_ShortCode = shortCode, ar_PV = stats_PV stats, ar_UV = stats_UV stats,
                       ar_TopSources = []\<rparr>"
proof -
  obtain stats where st: "GetStats repo shortCode s = Inr stats"
    by (cases "redis_GetPV repo shortCode s"; cases "redis_GetUV repo shortCode s")
       (simp add: GetStats_def)
  obtain m err where g: "redis_GetSources repo shortCode s = (m, err)"
    by (cases "redis_GetSources repo shortCode s")
  with assms have "err \<noteq> None" by simp
  then have "GetAnalytics repo shortCode s
      = Inr \<lparr>ar_ShortCode = shortCode, ar_PV = stats_PV stats, ar_UV = stats_UV stats,
              ar_TopSources = []\<rparr>"
    by (simp add: GetAnalytics_def st g getTopSources_def)
  with st show ?thesis by blast
qed

theorem GetAnalytics_sources_error_witness:
  "GetAnalytics (mockAnalytics (100, None) (50, None) ([], Some (BackendError ''redis error'')))
     ''ABCD'' []
   = Inr \<lparr>ar_ShortCode = ''ABCD'', ar_PV = 100, ar_UV = 50, ar_TopSources = []\<rparr>"
proof -
  let ?repo = "mockAnalytics (100, None) (50, None) ([], Some (BackendError ''redis error''))"
  have a: "snd (redis_GetSources ?repo ''ABCD'' []) \<noteq> None"
    by (simp add: mockAnalytics_def)
  have b: "GetStats ?repo ''ABCD'' [] = Inr \<lparr>stats_PV = 100, stats_UV = 50\<rparr>"
    by (simp add: GetStats_def mockAnalytics_def)
  show ?thesis
    using GetAnalytics_sources_error [OF a] b by auto
qed

text \<open>
  Claim C10. For a non-empty referer that parses as a URL with an empty host,
  \<^verbatim>\<open>extractSource\<close> returns the empty string, and \<^verbatim>\<open>RecordAccess\<close> makes the PV and UV
  updates and no source update: the backend is left in the state after
  \<^verbatim>\<open>IncrementPV\<close> and \<^verbatim>\<open>AddUV\<close>.
\<close>

theorem RecordAccess_empty_host:
  assumes "referer \<noteq> []" and "url_Parse lib referer = Inr u" and "Host u = []"
  shows "extractSource lib referer = []
    \<and> RecordAccess repo lib today shortCode clientIP userAgent referer s
        = (None, snd (redis_AddUV repo shortCode (today @ '':'' @ clientIP)
                   (snd (redis_IncrementPV repo shortCode s))))"
proof -
  have src: "extractSource lib referer = []"
    using assms by (simp add: extractSource_def HasPrefix_def)
  show ?thesis
    by (simp add: src RecordAccess_def Let_def split: prod.splits)
qed

theorem RecordAccess_empty_host_witness:
  "extractSource exampleLib ''/foo'' = []
   \<and> RecordAccess (mockAnalytics (0, None) (0, None) ([], None)) exampleLib ''2024-05-01''
        ''ABCD'' ''10.0.0.1'' ''curl'' ''/foo'' []
      = (None, [''IncrementPV ABCD'', ''AddUV ABCD 2024-05-01:10.0.0.1''])
   \<and> RecordAccess (mockAnalytics (0, None) (0, None) ([], None)) exampleLib ''2024-05-01''
        ''ABCD'' ''10.0.0.1'' ''curl'' ''https://blog.example.com'' []
      = (None, [''IncrementPV ABCD'', ''AddUV ABCD 2024-05-01:10.0.0.1'',
                ''AddSource ABCD example''])"
proof -
  let ?u = "\<lparr>Scheme = [], Host = [], Path = ''/foo'', RawQuery = [], Fragment = []\<rparr>"
  have p: "url_Parse exampleLib ''/foo'' = Inr ?u"
    by (simp add: exampleLib_def exampleParse_def HasPrefix_def)
  have h: "Host ?u = []" by simp
  have ne: "''/foo'' \<noteq> []" by simp
  have p2: "url_Parse exampleLib ''https://blog.example.com''
      = Inr \<lparr>Scheme = ''https'', Host = ''blog.example.com'', Path = [], RawQuery = [],
             Fragment = []\<rparr>"
    by (simp add: exampleLib_def exampleParse_def HasPrefix_def)
  have other: "extractSource exampleLib ''https://blog.example.com'' = ''example''"
    by (simp add: extractSource_def p2 HasPrefix_def)
  have "RecordAccess (mockAnalytics (0, None) (0, None) ([], None)) exampleLib ''2024-05-01''
        ''ABCD'' ''10.0.0.1'' ''curl'' ''https://blog.example.com'' []
      = (None, [''IncrementPV ABCD'', ''AddUV ABCD 2024-05-01:10.0.0.1'',
                ''AddSource ABCD example''])"
    by (simp add: RecordAccess_def other mockAnalytics_def)
  then show ?thesis
    using RecordAccess_empty_host [OF ne p h,
        of "mockAnalytics (0, None) (0, None) ([], None)" "''2024-05-01''" "''ABCD''"
          "''10.0.0.1''" "''curl''" "[]"]
    by (simp add: mockAnalytics_def)
qed

end
